theory Spec2Isabelle
  imports Complex_Main
begin

section \<open>Values, errors and the parameter dictionary\<close>

text \<open>
  A parameter value is what \<^verbatim>\<open>make_pars\<close> stores: a Python number (int or float, read
  here as a real), a \<^verbatim>\<open>datetime\<close> (only \<^verbatim>\<open>day_0\<close>), or \<^verbatim>\<open>None\<close> (the seed may be
  \<^verbatim>\<open>None\<close>).
\<close>

datatype pval = Num real | Date nat nat nat | PNone

text \<open>
  The payload of a \<^verbatim>\<open>KeyError\<close>:
  \<^item> \<open>Plain key\<close>: the dictionary's own error of \<^verbatim>\<open>self.pars[key]\<close>, which carries the key only;
  \<^item> \<open>DidYouMean key s\<close>: \<^verbatim>\<open>f'Key {key} not found; did you mean "{suggestion}"?'\<close>;
  \<^item> \<open>Available key ks\<close>: \<^verbatim>\<open>f'Key {key} not found; available keys:\n{all_keys}'\<close>.
\<close>

datatype keyerr = Plain string | DidYouMean string string | Available string "string list"

datatype error = KeyError keyerr | PersonKeyError nat | TypeError | IndexError
  | ZeroDivisionError | ValueError | ImportError

type_synonym dict = "(string \<times> pval) list"

definition ebind :: "error + 'a \<Rightarrow> ('a \<Rightarrow> error + 'b) \<Rightarrow> error + 'b" where
  "ebind m f = (case m of Inl e \<Rightarrow> Inl e | Inr x \<Rightarrow> f x)"

text \<open>
  \<^verbatim>\<open>for x in xs:\<close> with the body \<open>f x\<close> on the state; an exception in the body ends the loop.
\<close>

fun efold :: "('a \<Rightarrow> 's \<Rightarrow> error + 's) \<Rightarrow> 'a list \<Rightarrow> 's \<Rightarrow> error + 's" where
  "efold f [] s = Inr s"
| "efold f (x # xs) s = ebind (f x s) (efold f xs)"

text \<open>Python's \<^verbatim>\<open>d[k] = v\<close>: an existing key keeps its place, a new key goes to the end.\<close>

fun dict_set :: "('k \<times> 'v) list \<Rightarrow> 'k \<Rightarrow> 'v \<Rightarrow> ('k \<times> 'v) list" where
  "dict_set [] k v = [(k, v)]"
| "dict_set ((k', v') # d) k v = (if k' = k then (k, v) # d else (k', v') # dict_set d k v)"

text \<open>Python's \<^verbatim>\<open>d.update(other)\<close>: every item of \<open>other\<close> is stored, in order.\<close>

fun dict_update :: "('k \<times> 'v) list \<Rightarrow> ('k \<times> 'v) list \<Rightarrow> ('k \<times> 'v) list" where
  "dict_update d [] = d"
| "dict_update d ((k, v) # other) = dict_update (dict_set d k v) other"

definition keys :: "('k \<times> 'v) list \<Rightarrow> 'k list" where
  "keys d = map fst d"

text \<open>\<^verbatim>\<open>ParsObj.__getitem__\<close>: \<^verbatim>\<open>return self.pars[key]\<close>.\<close>

definition getitem :: "dict \<Rightarrow> string \<Rightarrow> error + pval" where
  "getitem d key = (case map_of d key of None \<Rightarrow> Inl (KeyError (Plain key)) | Some v \<Rightarrow> Inr v)"

text \<open>
  \<^verbatim>\<open>ParsObj.__setitem__\<close>. \<^verbatim>\<open>sc.suggest\<close> belongs to the sciris library and is a parameter
  here; \<^verbatim>\<open>if suggestion:\<close> is false for \<^verbatim>\<open>None\<close> and for the empty string.
\<close>

definition setitem ::
  "(string \<Rightarrow> string list \<Rightarrow> string option) \<Rightarrow> dict \<Rightarrow> string \<Rightarrow> pval \<Rightarrow> error + dict" where
  "setitem suggest d key v =
     (if key \<in> set (keys d) then Inr (dict_set d key v)
      else (case suggest key (keys d) of
              Some s \<Rightarrow> if s \<noteq> [] then Inl (KeyError (DidYouMean key s))
                        else Inl (KeyError (Available key (keys d)))
            | None \<Rightarrow> Inl (KeyError (Available key (keys d)))))"

text \<open>
  \<^verbatim>\<open>ParsObj.update_pars\<close>. The argument is a dict or some other object; the store is
  \<open>None\<close> while the object has no attribute \<^verbatim>\<open>pars\<close> yet (during construction).
\<close>

datatype pyarg = DictArg dict | OtherArg

definition update_pars :: "dict option \<Rightarrow> pyarg \<Rightarrow> error + dict" where
  "update_pars store arg =
     (case arg of
        OtherArg \<Rightarrow> Inl TypeError
      | DictArg new \<Rightarrow>
          (case store of None \<Rightarrow> Inr new | Some d \<Rightarrow> Inr (dict_update d new)))"

text \<open>Reading a value as a number; arithmetic on \<^verbatim>\<open>None\<close> or a date raises \<^verbatim>\<open>TypeError\<close>.\<close>

definition num :: "pval \<Rightarrow> error + real" where
  "num v = (case v of Num r \<Rightarrow> Inr r | _ \<Rightarrow> Inl TypeError)"

definition getnum :: "dict \<Rightarrow> string \<Rightarrow> error + real" where
  "getnum d key = ebind (getitem d key) num"

definition truthy :: "pval \<Rightarrow> bool" where
  "truthy v = (case v of Num r \<Rightarrow> r \<noteq> 0 | Date _ _ _ \<Rightarrow> True | PNone \<Rightarrow> False)"

definition pydiv :: "real \<Rightarrow> real \<Rightarrow> error + real" where
  "pydiv a b = (if b = 0 then Inl ZeroDivisionError else Inr (a / b))"

text \<open>Python's \<^verbatim>\<open>int(x)\<close> truncates towards zero; \<^verbatim>\<open>round(x)\<close> rounds halves to even.\<close>

definition py_int :: "real \<Rightarrow> int" where
  "py_int x = (if 0 \<le> x then \<lfloor>x\<rfloor> else \<lceil>x\<rceil>)"

definition py_round :: "real \<Rightarrow> int" where
  "py_round x =
     (let f = \<lfloor>x\<rfloor>; d = x - of_int f
      in if d < 1 / 2 then f else if 1 / 2 < d then f + 1 else if even f then f else f + 1)"

section \<open>parameters.py\<close>

text \<open>
  \<^verbatim>\<open>make_pars\<close>, in the order of the assignments. \<^verbatim>\<open>10000 // pars['scale']\<close> and
  \<^verbatim>\<open>1 // pars['scale']\<close> are integer divisions by 1; \<^verbatim>\<open>n_days\<close> is the number of days from
  2020-01-15 to 2020-03-09, which is 16 + 29 + 9 = 54.
\<close>

definition make_pars :: dict where
  "make_pars =
    [(''scale'', Num 1),
     (''n'', Num (of_int (10000 div 1))),
     (''n_infected'', Num (of_int (1 div 1))),
     (''day_0'', Date 2020 1 15),
     (''n_days'', Num 54),
     (''seed'', Num 1),
     (''verbose'', Num 1),
     (''usepopdata'', Num 0),
     (''r_contact'', Num (29 / 10 / (10 * 20))),
     (''contacts'', Num 20),
     (''incub'', Num 4),
     (''incub_std'', Num 1),
     (''dur'', Num 12),
     (''dur_std'', Num 3),
     (''sensitivity'', Num 1),
     (''symptomatic'', Num 5),
     (''cfr'', Num (2 / 100)),
     (''timetodie'', Num 22),
     (''timetodie_std'', Num 2),
     (''quarantine'', Num (- 1)),
     (''unquarantine'', Num (- 1)),
     (''quarantine_eff'', Num 1)]"

section \<open>Library functions taken as parameters\<close>

text \<open>
  The module \<^verbatim>\<open>covid_abm.utils\<close> (\<^verbatim>\<open>cov_ut\<close>) and the libraries numpy/pylab, sciris and
  synthpops are not part of the source files. Their functions are parameters of the model.
  The process-wide random stream is a value of type \<open>'g\<close> that every draw takes and
  returns:
  \<^item> \<open>u_seed\<close>: the state of the stream after \<^verbatim>\<open>cov_ut.set_seed(seed)\<close>;
  \<^item> \<open>u_sample\<close>, \<open>u_bt\<close>, \<open>u_pt\<close>, \<open>u_choose_people\<close>, \<open>u_choose_people_weighted\<close>: the
    functions of \<^verbatim>\<open>cov_ut\<close> with these names;
  \<^item> \<open>u_normal\<close>, \<open>u_randn\<close>, \<open>u_randint\<close>: \<^verbatim>\<open>pl.normal\<close>, \<^verbatim>\<open>pl.randn\<close>, \<^verbatim>\<open>pl.randint\<close>;
  \<^item> \<open>u_suggest\<close>: \<^verbatim>\<open>sc.suggest\<close>;
  \<^item> \<open>u_synthpops\<close>: \<^verbatim>\<open>sp.get_seattle_age_sex\<close>, \<open>None\<close> when synthpops cannot be imported.
\<close>

record 'g utils =
  u_suggest :: "string \<Rightarrow> string list \<Rightarrow> string option"
  u_seed :: "real \<Rightarrow> 'g"
  u_sample :: "real \<Rightarrow> 'g \<Rightarrow> real \<times> 'g"
  u_bt :: "real \<Rightarrow> 'g \<Rightarrow> bool \<times> 'g"
  u_pt :: "real \<Rightarrow> 'g \<Rightarrow> nat \<times> 'g"
  u_choose_people :: "nat \<Rightarrow> nat \<Rightarrow> 'g \<Rightarrow> nat list \<times> 'g"
  u_choose_people_weighted :: "real list \<Rightarrow> real \<Rightarrow> 'g \<Rightarrow> nat list \<times> 'g"
  u_normal :: "real \<Rightarrow> real \<Rightarrow> 'g \<Rightarrow> real \<times> 'g"
  u_randn :: "'g \<Rightarrow> real \<times> 'g"
  u_randint :: "nat \<Rightarrow> 'g \<Rightarrow> nat \<times> 'g"
  u_synthpops :: "('g \<Rightarrow> (real \<times> nat) \<times> 'g) option"

text \<open>\<^verbatim>\<open>get_age_sex\<close> of parameters.py, called with \<^verbatim>\<open>use_data\<close> only.\<close>

definition median3 :: "real \<Rightarrow> real \<Rightarrow> real \<Rightarrow> real" where
  "median3 a b c = sort [a, b, c] ! 1"

definition get_age_sex :: "'g utils \<Rightarrow> pval \<Rightarrow> 'g \<Rightarrow> error + ((real \<times> nat) \<times> 'g)" where
  "get_age_sex U use_data g =
     (if truthy use_data then
        (case u_synthpops U of None \<Rightarrow> Inl ImportError | Some f \<Rightarrow> Inr (f g))
      else
        (let (sx, g1) = u_randint U 2 g;
             (a, g2) = u_normal U 40 15 g1
         in Inr ((median3 0 a 99, sx), g2)))"

section \<open>model_dist.py: people, results and the simulation state\<close>

text \<open>
  \<^verbatim>\<open>Person\<close>. The identifier \<^verbatim>\<open>str(sc.uuid())\<close> is modelled by the position of the person in
  the order of creation, so \<^verbatim>\<open>self.uids[i]\<close> is \<open>i\<close>. \<open>died\<close> is the attribute that
  \<^verbatim>\<open>person.died = True\<close> creates in the run loop; \<open>dead\<close> is the attribute of the
  constructor. Every person's \<^verbatim>\<open>pars\<close> is the simulation's own dictionary (the constructor
  stores the reference), so a person has no dictionary of its own here.
\<close>

record person =
  uid :: nat
  age :: real
  sex :: nat
  alive :: bool
  susceptible :: bool
  exposed :: bool
  infectious :: bool
  diagnosed :: bool
  recovered :: bool
  dead :: bool
  died :: bool
  date_exposed :: "real option"
  date_infectious :: "real option"
  date_diagnosed :: "real option"
  date_recovered :: "real option"
  date_died :: "real option"

definition Person :: "nat \<Rightarrow> real \<Rightarrow> nat \<Rightarrow> person" where
  "Person u a sx =
     \<lparr>uid = u, age = a, sex = sx, alive = True, susceptible = True, exposed = False,
      infectious = False, diagnosed = False, recovered = False, dead = False, died = False,
      date_exposed = None, date_infectious = None, date_diagnosed = None,
      date_recovered = None, date_died = None\<rparr>"

text \<open>The results: one series per key of \<^verbatim>\<open>results_keys\<close>, and \<^verbatim>\<open>t\<close>, \<^verbatim>\<open>transtree\<close>, \<^verbatim>\<open>ready\<close>.\<close>

record results_table =
  n_susceptible :: "real list"
  n_exposed :: "real list"
  n_infectious :: "real list"
  n_recovered :: "real list"
  infections :: "real list"
  tests :: "real list"
  diagnoses :: "real list"
  recoveries :: "real list"
  deaths :: "real list"
  cum_exposed :: "real list"
  cum_tested :: "real list"
  cum_diagnosed :: "real list"
  cum_deaths :: "real list"
  tvec :: "nat list"
  transtree :: "(nat \<times> nat \<times> nat) list"
  ready :: bool

record 'g sim =
  pars :: dict
  people :: "person list"
  results :: results_table
  rng :: 'g

text \<open>\<^verbatim>\<open>a[t] += 1\<close> on a series, for an index inside the series.\<close>

definition incr :: "nat \<Rightarrow> real list \<Rightarrow> real list" where
  "incr t xs = xs[t := xs ! t + 1]"

definition upd_person :: "nat \<Rightarrow> (person \<Rightarrow> person) \<Rightarrow> 'g sim \<Rightarrow> 'g sim" where
  "upd_person i f s = people_update (\<lambda>ps. ps[i := f (ps ! i)]) s"

text \<open>\<^verbatim>\<open>Sim.npts\<close>: \<^verbatim>\<open>int(self['n_days'] + 1)\<close>.\<close>

definition npts :: "dict \<Rightarrow> error + int" where
  "npts d = ebind (getnum d ''n_days'') (\<lambda>n. Inr (py_int (n + 1)))"

text \<open>\<^verbatim>\<open>Sim.init_results\<close>; \<^verbatim>\<open>np.zeros\<close> refuses a negative length.\<close>

definition init_results :: "'g sim \<Rightarrow> error + 'g sim" where
  "init_results s =
     ebind (npts (pars s)) (\<lambda>n.
       if n < 0 then Inl ValueError
       else
         (let z = replicate (nat n) (0::real)
          in Inr (s\<lparr>results :=
               \<lparr>n_susceptible = z, n_exposed = z, n_infectious = z, n_recovered = z,
                infections = z, tests = z, diagnoses = z, recoveries = z, deaths = z,
                cum_exposed = z, cum_tested = z, cum_diagnosed = z, cum_deaths = z,
                tvec = [0..<nat n], transtree = [], ready = False\<rparr>\<rparr>)))"

text \<open>\<^verbatim>\<open>Sim.set_seed\<close> with \<^verbatim>\<open>reset=False\<close>; \<^verbatim>\<open>None\<close> leaves the stream as it is.\<close>

definition set_seed :: "'g utils \<Rightarrow> pval \<Rightarrow> 'g sim \<Rightarrow> error + 'g sim" where
  "set_seed U seed s =
     (case seed of
        Num r \<Rightarrow> Inr (s\<lparr>rng := u_seed U r\<rparr>)
      | PNone \<Rightarrow> Inr s
      | Date _ _ _ \<Rightarrow> Inl TypeError)"

text \<open>\<^verbatim>\<open>Sim.init_people\<close>: the loop that creates the people (lines 164 to 167).\<close>

definition make_person ::
  "'g utils \<Rightarrow> dict \<Rightarrow> nat \<Rightarrow> person list \<times> 'g \<Rightarrow> error + (person list \<times> 'g)" where
  "make_person U d p acc =
     (case acc of (ps, g) \<Rightarrow>
        ebind (getitem d ''usepopdata'') (\<lambda>use_data.
        ebind (get_age_sex U use_data g) (\<lambda>((a, sx), g').
          Inr (ps @ [Person (length ps) a sx], g'))))"

definition make_people ::
  "'g utils \<Rightarrow> dict \<Rightarrow> nat list \<Rightarrow> person list \<times> 'g \<Rightarrow> error + (person list \<times> 'g)" where
  "make_people U d range_n acc = efold (make_person U d) range_n acc"

text \<open>\<^verbatim>\<open>Sim.init_people\<close>: the loop that creates the seed infections (lines 173 to 180).\<close>

definition seed_infection :: "nat \<Rightarrow> 'g sim \<Rightarrow> error + 'g sim" where
  "seed_infection i s =
     (if infections (results s) = [] then Inl IndexError
      else if length (people s) \<le> i then Inl IndexError
      else Inr (upd_person i
                  (\<lambda>p. p\<lparr>susceptible := False, exposed := True, infectious := True,
                          date_exposed := Some 0, date_infectious := Some 0\<rparr>)
                  (results_update (infections_update (incr 0)) s)))"

definition seed_infections :: "nat list \<Rightarrow> 'g sim \<Rightarrow> error + 'g sim" where
  "seed_infections range_k s = efold seed_infection range_k s"

definition init_people :: "'g utils \<Rightarrow> 'g sim \<Rightarrow> error + 'g sim" where
  "init_people U s =
     ebind (getnum (pars s) ''verbose'') (\<lambda>verbose.
     ebind (getnum (pars s) ''n'') (\<lambda>n.
     ebind (make_people U (pars s) [0..<nat (py_int n)] ([], rng s)) (\<lambda>(ps, g).
     ebind (getnum (pars s) ''n_infected'') (\<lambda>k.
       seed_infections [0..<nat (py_int k)] (s\<lparr>people := ps, rng := g\<rparr>)))))"

text \<open>
  An object of class \<^verbatim>\<open>Sim\<close> with the dictionary \<open>d\<close>, before \<^verbatim>\<open>init_results\<close> and
  \<^verbatim>\<open>init_people\<close> have created its results and people; \<open>g\<close> is the process-wide stream.
\<close>

definition blank_sim :: "dict \<Rightarrow> 'g \<Rightarrow> 'g sim" where
  "blank_sim d g =
     \<lparr>pars = d, people = [],
      results = \<lparr>n_susceptible = [], n_exposed = [], n_infectious = [],
        n_recovered = [], infections = [], tests = [], diagnoses = [],
        recoveries = [], deaths = [], cum_exposed = [], cum_tested = [],
        cum_diagnosed = [], cum_deaths = [], tvec = [], transtree = [],
        ready = False\<rparr>,
      rng = g\<rparr>"

text \<open>\<^verbatim>\<open>Sim.__init__\<close>; \<^verbatim>\<open>pars=None\<close> takes \<^verbatim>\<open>make_pars()\<close>. \<open>g\<close> is the stream before the call.\<close>

definition Sim_init :: "'g utils \<Rightarrow> dict option \<Rightarrow> 'g \<Rightarrow> error + 'g sim" where
  "Sim_init U pars_arg g =
     (let d = (case pars_arg of None \<Rightarrow> make_pars | Some d \<Rightarrow> d);
          s = blank_sim d g
      in ebind (getitem d ''seed'') (\<lambda>seed.
         ebind (set_seed U seed s) (\<lambda>s1.
         ebind (init_results s1) (\<lambda>s2. init_people U s2))))"

section \<open>model_dist.py: infection and the day loop\<close>

text \<open>
  \<^verbatim>\<open>Sim.infect_person\<close>; \<open>src\<close> is the identifier of the source person, \<open>tgt\<close> the index of
  the target person.
\<close>

definition infect_person :: "'g utils \<Rightarrow> nat \<Rightarrow> nat \<Rightarrow> nat \<Rightarrow> 'g sim \<Rightarrow> error + 'g sim" where
  "infect_person U src tgt t s =
     (let s1 = upd_person tgt
                 (\<lambda>p. p\<lparr>susceptible := False, exposed := True, date_exposed := Some (real t)\<rparr>) s
      in ebind (getnum (pars s1) ''incub'') (\<lambda>incub.
         let (incub_dist, g1) = u_sample U incub (rng s1);
             s2 = upd_person tgt (\<lambda>p. p\<lparr>date_infectious := Some (real t + incub_dist)\<rparr>) s1
         in ebind (getnum (pars s2) ''cfr'') (\<lambda>cfr.
            let (die, g2) = u_bt U cfr g1
            in ebind
                 (if die then
                    ebind (getnum (pars s2) ''timetodie'') (\<lambda>m.
                    ebind (getnum (pars s2) ''timetodie_std'') (\<lambda>sd.
                      let (x, g3) = u_normal U m sd g2;
                          death_dist = py_round x
                      in Inr (upd_person tgt
                               (\<lambda>p. p\<lparr>date_died := Some (real t + of_int death_dist)\<rparr>)
                               (s2\<lparr>rng := g3\<rparr>))))
                  else
                    ebind (getnum (pars s2) ''dur'') (\<lambda>dur.
                      let (dur_dist, g3) = u_sample U dur g2
                      in Inr (upd_person tgt
                               (\<lambda>p. p\<lparr>date_recovered :=
                                        Some (real t + incub_dist + dur_dist)\<rparr>)
                               (s2\<lparr>rng := g3\<rparr>))))
                 (\<lambda>s3. Inr (results_update
                          (transtree_update
                             (\<lambda>tr. dict_set tr (uid (people s3 ! tgt)) (src, t))) s3)))))"

text \<open>
  The loop over \<^verbatim>\<open>contact_inds\<close> of the person at index \<open>i\<close> (lines 287 to 295);
  \<^verbatim>\<open>self['r0']/self['dur']/self['contacts']\<close> is read for every contact.
\<close>

definition contact_step :: "'g utils \<Rightarrow> nat \<Rightarrow> nat \<Rightarrow> nat \<Rightarrow> 'g sim \<Rightarrow> error + 'g sim" where
  "contact_step U t i contact_ind s =
     ebind (getitem (pars s) ''r0'') (\<lambda>r0v.
     ebind (getitem (pars s) ''dur'') (\<lambda>durv.
     ebind (num r0v) (\<lambda>r0.
     ebind (num durv) (\<lambda>dur.
     ebind (pydiv r0 dur) (\<lambda>q.
     ebind (getitem (pars s) ''contacts'') (\<lambda>cv.
     ebind (num cv) (\<lambda>c.
     ebind (pydiv q c) (\<lambda>prob.
       let (exposure, g) = u_bt U prob (rng s);
           s1 = s\<lparr>rng := g\<rparr>
       in if exposure then
            (if length (people s1) \<le> contact_ind then Inl IndexError
             else if susceptible (people s1 ! contact_ind) then
               infect_person U (uid (people s1 ! i)) contact_ind t
                 (results_update (infections_update (incr t)) s1)
             else Inr s1)
          else Inr s1))))))))"

definition contact_loop :: "'g utils \<Rightarrow> nat \<Rightarrow> nat \<Rightarrow> nat list \<Rightarrow> 'g sim \<Rightarrow> error + 'g sim" where
  "contact_loop U t i contact_inds s = efold (contact_step U t i) contact_inds s"

text \<open>
  \<^verbatim>\<open>person.date_died and t >= person.date_died\<close>: a date that is \<^verbatim>\<open>None\<close> or 0 is false.
\<close>

definition date_reached :: "real option \<Rightarrow> nat \<Rightarrow> bool" where
  "date_reached d t = (case d of None \<Rightarrow> False | Some x \<Rightarrow> x \<noteq> 0 \<and> x \<le> real t)"

text \<open>The body of \<^verbatim>\<open>if person.exposed:\<close> (lines 259 to 264).\<close>

definition step_exposed :: "nat \<Rightarrow> nat \<Rightarrow> 'g sim \<Rightarrow> error + 'g sim" where
  "step_exposed t i s =
     (let p = people s ! i
      in if exposed p then
           (let s1 = results_update (n_exposed_update (incr t)) s
            in if \<not> infectious p then
                 (case date_infectious p of
                    None \<Rightarrow> Inl TypeError
                  | Some d \<Rightarrow>
                      if d \<le> real t then Inr (upd_person i (\<lambda>p. p\<lparr>infectious := True\<rparr>) s1)
                      else Inr s1)
               else Inr s1)
         else Inr s)"

text \<open>The body of \<^verbatim>\<open>if person.infectious:\<close> (lines 267 to 295).\<close>

definition step_infectious :: "'g utils \<Rightarrow> nat \<Rightarrow> nat \<Rightarrow> 'g sim \<Rightarrow> error + 'g sim" where
  "step_infectious U t i s =
     (if infectious (people s ! i) then
        (let s1 = (if date_reached (date_died (people s ! i)) t then
                     upd_person i
                       (\<lambda>p. p\<lparr>exposed := False, infectious := False, recovered := False,
                               died := True\<rparr>)
                       (results_update (deaths_update (incr t)) s)
                   else s)
         in if date_reached (date_recovered (people s1 ! i)) t then
              Inr (upd_person i
                     (\<lambda>p. p\<lparr>exposed := False, infectious := False, recovered := True\<rparr>)
                     (results_update (recoveries_update (incr t)) s1))
            else
              (let s2 = results_update (n_infectious_update (incr t)) s1
               in ebind (getnum (pars s2) ''contacts'') (\<lambda>c.
                  let (n_contacts, g1) = u_pt U c (rng s2);
                      (contact_inds, g2) = u_choose_people U (length (people s2)) n_contacts g1
                  in contact_loop U t i contact_inds (s2\<lparr>rng := g2\<rparr>))))
      else Inr s)"

text \<open>
  One pass of \<^verbatim>\<open>for person in self.people.values()\<close>, for the person at index \<open>i\<close>. The
  second component is \<^verbatim>\<open>test_probs\<close>.
\<close>

definition person_step ::
  "'g utils \<Rightarrow> nat \<Rightarrow> nat \<Rightarrow> 'g sim \<times> (nat \<times> pval) list \<Rightarrow> error + ('g sim \<times> (nat \<times> pval) list)" where
  "person_step U t i st =
     (case st of (s, test_probs) \<Rightarrow>
        if susceptible (people s ! i) then
          Inr (results_update (n_susceptible_update (incr t)) s, test_probs)
        else
          ebind (if infectious (people s ! i) then getitem (pars s) ''symptomatic''
                 else Inr (Num 1)) (\<lambda>w.
          ebind (step_exposed t i s) (\<lambda>s1.
          ebind (step_infectious U t i s1) (\<lambda>s2.
            Inr (if recovered (people s2 ! i)
                 then results_update (n_recovered_update (incr t)) s2 else s2,
                 dict_set test_probs (uid (people s ! i)) w)))))"

definition people_loop ::
  "'g utils \<Rightarrow> nat \<Rightarrow> nat list \<Rightarrow> 'g sim \<times> (nat \<times> pval) list \<Rightarrow> error + ('g sim \<times> (nat \<times> pval) list)" where
  "people_loop U t inds st = efold (person_step U t) inds st"

text \<open>
  The loop over \<^verbatim>\<open>test_inds\<close> (lines 309 to 315); \<^verbatim>\<open>self.people[test_ind]\<close> is a lookup
  in the dictionary of the people, read here by position, and \<open>PersonKeyError\<close> is its
  \<^verbatim>\<open>KeyError\<close>.
\<close>

definition test_step :: "'g utils \<Rightarrow> nat \<Rightarrow> nat \<Rightarrow> 'g sim \<Rightarrow> error + 'g sim" where
  "test_step U t test_ind s =
     (if length (people s) \<le> test_ind then Inl (PersonKeyError test_ind)
      else if infectious (people s ! test_ind) then
        ebind (getnum (pars s) ''sensitivity'') (\<lambda>sens.
          let (pos, g) = u_bt U sens (rng s);
              s1 = s\<lparr>rng := g\<rparr>
          in Inr (if pos then
                    upd_person test_ind (\<lambda>p. p\<lparr>diagnosed := True\<rparr>)
                      (results_update (diagnoses_update (incr t)) s1)
                  else s1))
      else Inr s)"

definition test_loop :: "'g utils \<Rightarrow> nat \<Rightarrow> nat list \<Rightarrow> 'g sim \<Rightarrow> error + 'g sim" where
  "test_loop U t test_inds s = efold (test_step U t) test_inds s"

fun nums :: "pval list \<Rightarrow> error + real list" where
  "nums [] = Inr []"
| "nums (v # vs) = ebind (num v) (\<lambda>r. ebind (nums vs) (\<lambda>rs. Inr (r # rs)))"

text \<open>
  The testing block of the day (lines 301 to 315), for a feed \<open>daily_tests\<close> of numbers, one
  per day.
\<close>

definition testing ::
  "'g utils \<Rightarrow> nat \<Rightarrow> real list \<Rightarrow> (nat \<times> pval) list \<Rightarrow> 'g sim \<Rightarrow> error + 'g sim" where
  "testing U t daily_tests test_probs s =
     (if t < length daily_tests then
        (let n_tests = daily_tests ! t
         in if n_tests \<noteq> 0 then
              (let s1 = results_update (tests_update (\<lambda>xs. xs[t := n_tests])) s
               in ebind (nums (map snd test_probs)) (\<lambda>ws.
                  let probs = map (\<lambda>w. w / sum_list ws) ws;
                      (test_inds, g) = u_choose_people_weighted U probs n_tests (rng s1)
                  in test_loop U t test_inds (s1\<lparr>rng := g\<rparr>)))
            else Inr s)
      else Inr s)"

text \<open>The intervention block of the day (lines 317 to 326), on the dictionary.\<close>

definition intervention :: "'g utils \<Rightarrow> nat \<Rightarrow> dict \<Rightarrow> error + dict" where
  "intervention U t d =
     ebind (getitem d ''intervene'') (\<lambda>iv.
     ebind (if iv = Num (real t) then
              ebind (getitem d ''contacts'') (\<lambda>cv.
              ebind (getnum d ''intervention_eff'') (\<lambda>eff.
              ebind (num cv) (\<lambda>c.
                setitem (u_suggest U) d ''contacts'' (Num (c * (1 - eff))))))
            else Inr d) (\<lambda>d1.
     ebind (getitem d1 ''unintervene'') (\<lambda>uv.
       if uv = Num (real t) then
         ebind (getitem d1 ''contacts'') (\<lambda>cv.
         ebind (getnum d1 ''intervention_eff'') (\<lambda>eff.
         ebind (num cv) (\<lambda>c.
         ebind (pydiv c (1 - eff)) (\<lambda>c'.
           setitem (u_suggest U) d1 ''contacts'' (Num c')))))
       else Inr d1)))"

text \<open>One day of the main loop of \<^verbatim>\<open>Sim.run\<close>; \<^verbatim>\<open>if verbose>=1\<close> needs a number.\<close>

definition day_step :: "'g utils \<Rightarrow> pval \<Rightarrow> real list \<Rightarrow> nat \<Rightarrow> 'g sim \<Rightarrow> error + 'g sim" where
  "day_step U verbose daily_tests t s =
     ebind (num verbose) (\<lambda>_.
     ebind (people_loop U t [0..<length (people s)] (s, [])) (\<lambda>(s1, test_probs).
     ebind (testing U t daily_tests test_probs s1) (\<lambda>s2.
     ebind (intervention U t (pars s2)) (\<lambda>d. Inr (s2\<lparr>pars := d\<rparr>)))))"

definition run_days :: "'g utils \<Rightarrow> pval \<Rightarrow> real list \<Rightarrow> nat list \<Rightarrow> 'g sim \<Rightarrow> error + 'g sim" where
  "run_days U verbose daily_tests days s = efold (day_step U verbose daily_tests) days s"

text \<open>\<^verbatim>\<open>pl.cumsum\<close>.\<close>

fun cumsum_from :: "real \<Rightarrow> real list \<Rightarrow> real list" where
  "cumsum_from a [] = []"
| "cumsum_from a (x # xs) = (a + x) # cumsum_from (a + x) xs"

definition cumsum :: "real list \<Rightarrow> real list" where
  "cumsum xs = cumsum_from 0 xs"

definition finish_results :: "real \<Rightarrow> results_table \<Rightarrow> results_table" where
  "finish_results sc r =
     (let r1 = r\<lparr>cum_exposed := cumsum (infections r), cum_tested := cumsum (tests r),
                 cum_diagnosed := cumsum (diagnoses r), cum_deaths := cumsum (deaths r)\<rparr>;
          f = map (\<lambda>x. x * sc)
      in r1\<lparr>n_susceptible := f (n_susceptible r1), n_exposed := f (n_exposed r1),
            n_infectious := f (n_infectious r1), n_recovered := f (n_recovered r1),
            infections := f (infections r1), tests := f (tests r1),
            diagnoses := f (diagnoses r1), recoveries := f (recoveries r1),
            deaths := f (deaths r1), cum_exposed := f (cum_exposed r1),
            cum_tested := f (cum_tested r1), cum_diagnosed := f (cum_diagnosed r1),
            cum_deaths := f (cum_deaths r1), ready := True\<rparr>)"

text \<open>
  The days of \<^verbatim>\<open>Sim.run\<close>, up to the end of the main loop: \<^verbatim>\<open>init_results\<close>,
  \<^verbatim>\<open>init_people\<close>, \<^verbatim>\<open>daily_tests = []\<close> and the loop over \<^verbatim>\<open>range(self.npts)\<close>.
\<close>

definition run_loop :: "'g utils \<Rightarrow> pval \<Rightarrow> 'g sim \<Rightarrow> error + 'g sim" where
  "run_loop U verbose s =
     ebind (init_results s) (\<lambda>s1.
     ebind (init_people U s1) (\<lambda>s2.
     ebind (npts (pars s2)) (\<lambda>n.
       run_days U verbose [] [0..<nat n] s2)))"

text \<open>
  The state of \<^verbatim>\<open>Sim.run\<close> at the end of day \<open>t\<close> of its main loop, that is, after the
  passes of \<^verbatim>\<open>for t in range(self.npts)\<close> for the days 0 to \<open>t\<close>. It is \<open>None\<close> when the
  loop has no day \<open>t\<close> (\<open>t\<close> is not below \<^verbatim>\<open>npts\<close>), and \<open>Some (Inl e)\<close> when the run has
  ended with the error \<open>e\<close> by then. \<open>contacts_after_day\<close> is the value of \<^verbatim>\<open>contacts\<close> in
  that state.
\<close>

definition day_end :: "'g utils \<Rightarrow> pval \<Rightarrow> 'g sim \<Rightarrow> nat \<Rightarrow> (error + 'g sim) option" where
  "day_end U verbose s t =
     (case ebind (init_results s) (\<lambda>s1.
           ebind (init_people U s1) (\<lambda>s2.
           ebind (npts (pars s2)) (\<lambda>n. Inr (s2, n)))) of
        Inl e \<Rightarrow> Some (Inl e)
      | Inr (s2, n) \<Rightarrow>
          if int t < n then Some (run_days U verbose [] (take (Suc t) [0..<nat n]) s2)
          else None)"

definition contacts_after_day ::
  "'g utils \<Rightarrow> pval \<Rightarrow> 'g sim \<Rightarrow> nat \<Rightarrow> (error + real) option" where
  "contacts_after_day U verbose s t =
     map_option (\<lambda>r. ebind r (\<lambda>s'. getnum (pars s') ''contacts''))
       (day_end U verbose s t)"

text \<open>
  \<^verbatim>\<open>Sim.run\<close> with \<^verbatim>\<open>do_plot=False\<close>. After the loop: the cumulative series, the scaling by
  \<^verbatim>\<open>self['scale']\<close>, and the summary, which reads the last entry of four series when
  \<^verbatim>\<open>verbose>=1\<close>.
\<close>

definition Sim_run :: "'g utils \<Rightarrow> pval option \<Rightarrow> 'g sim \<Rightarrow> error + 'g sim" where
  "Sim_run U verbose_arg s =
     ebind (case verbose_arg of None \<Rightarrow> getitem (pars s) ''verbose'' | Some v \<Rightarrow> Inr v) (\<lambda>verbose.
     ebind (run_loop U verbose s) (\<lambda>s3.
     ebind (getnum (pars s3) ''scale'') (\<lambda>sc.
     ebind (num verbose) (\<lambda>v.
       let s4 = s3\<lparr>results := finish_results sc (results s3)\<rparr>
       in if 1 \<le> v \<and> n_susceptible (results s4) = [] then Inl IndexError else Inr s4))))"

text \<open>
  \<^verbatim>\<open>single_run\<close>. \<open>g\<close> is the process-wide stream at the time of the call; a simulation
  that is passed in is copied and runs on that stream.
\<close>

definition single_run ::
  "'g utils \<Rightarrow> 'g sim option \<Rightarrow> dict option \<Rightarrow> real \<Rightarrow> int \<Rightarrow> pval option \<Rightarrow> 'g \<Rightarrow> error + 'g sim" where
  "single_run U sim_arg pars_arg noise ind verbose g =
     ebind (case sim_arg of None \<Rightarrow> Sim_init U pars_arg g | Some sim \<Rightarrow> Inr (sim\<lparr>rng := g\<rparr>)) (\<lambda>s.
     ebind (getnum (pars s) ''seed'') (\<lambda>sd.
     ebind (setitem (u_suggest U) (pars s) ''seed'' (Num (sd + of_int ind))) (\<lambda>d1.
     ebind (getitem d1 ''seed'') (\<lambda>seed.
     ebind (set_seed U seed (s\<lparr>pars := d1\<rparr>)) (\<lambda>s1.
     ebind (getitem (pars s1) ''r0'') (\<lambda>r0v.
       let (z, g1) = u_randn U (rng s1)
       in ebind (num r0v) (\<lambda>r0.
          ebind (setitem (u_suggest U) (pars s1) ''r0'' (Num (r0 * (1 + noise * z)))) (\<lambda>d2.
            Sim_run U verbose (s1\<lparr>pars := d2, rng := g1\<rparr>)))))))))"

section \<open>Concrete library functions and inputs\<close>

text \<open>
  An instance of the library functions, used to run the model on concrete inputs. The
  stream is a tape of contact lists: \<open>u_pt\<close> returns the length of the next list and
  \<open>u_choose_people\<close> takes it off the tape. The delay samplers return their mean, a
  Bernoulli trial succeeds when its probability is at least 1, and nothing is suggested
  for a missing key.
\<close>

definition tape_utils :: "nat list list \<Rightarrow> (nat list list) utils" where
  "tape_utils tape =
     \<lparr>u_suggest = (\<lambda>k ks. None),
      u_seed = (\<lambda>r. tape),
      u_sample = (\<lambda>m g. (m, g)),
      u_bt = (\<lambda>p g. (1 \<le> p, g)),
      u_pt = (\<lambda>r g. (case g of [] \<Rightarrow> 0 | c # _ \<Rightarrow> length c, g)),
      u_choose_people = (\<lambda>mx n g. (case g of [] \<Rightarrow> ([], []) | c # cs \<Rightarrow> (c, cs))),
      u_choose_people_weighted = (\<lambda>ps n g. ([], g)),
      u_normal = (\<lambda>m sd g. (m, g)),
      u_randn = (\<lambda>g. (0, g)),
      u_randint = (\<lambda>n g. (0, g)),
      u_synthpops = None\<rparr>"

text \<open>
  A parameter set with every key that \<^verbatim>\<open>Sim.run\<close> and \<^verbatim>\<open>single_run\<close> read: three people,
  one seed infection, days 0 to 2, every contact transmits (\<open>r0/dur/contacts = 1\<close>), every
  infected person is to die (\<open>cfr = 1\<close>) two days after exposure and is infectious one
  day after exposure.
\<close>

definition demo_pars :: dict where
  "demo_pars =
    [(''scale'', Num 1), (''n'', Num 3), (''n_infected'', Num 1), (''n_days'', Num 2),
     (''seed'', Num 1), (''verbose'', Num 0), (''usepopdata'', Num 0), (''r0'', Num 1),
     (''contacts'', Num 1), (''incub'', Num 1), (''dur'', Num 1), (''sensitivity'', Num 1),
     (''symptomatic'', Num 5), (''cfr'', Num 1), (''timetodie'', Num 2),
     (''timetodie_std'', Num 0), (''intervene'', Num (- 1)), (''unintervene'', Num (- 1)),
     (''intervention_eff'', Num 0)]"

text \<open>
  The scenario of the intervention: \<open>demo_pars\<close> with 26 days, four contacts per day, the
  intervention on day 10 with efficacy one half, and its end on day 20.
\<close>

definition intervention_pars :: dict where
  "intervention_pars =
     dict_update demo_pars
       [(''n_days'', Num 25), (''contacts'', Num 4), (''r0'', Num 4), (''intervene'', Num 10),
        (''unintervene'', Num 20), (''intervention_eff'', Num (1 / 2))]"

section \<open>What the loop over the people leaves alone\<close>

text \<open>
  \<open>kept s\<close>: the parameters, the series \<^verbatim>\<open>tests\<close> and \<^verbatim>\<open>diagnoses\<close>, and the
  \<^verbatim>\<open>diagnosed\<close> flags of the people, in their order.
\<close>

definition kept :: "'g sim \<Rightarrow> dict \<times> real list \<times> real list \<times> bool list" where
  "kept s = (pars s, tests (results s), diagnoses (results s), map diagnosed (people s))"

section \<open>Predicates on people\<close>




text \<open>
  The flags of a person as a state: a susceptible person has no other flag and no day of
  recovery or death; any other person is exposed (and then perhaps infectious), or
  recovered, or has died, and only one of the three; not both a day of recovery and a
  day of death are set.
\<close>

definition wf_person :: "person \<Rightarrow> bool" where
  "wf_person p \<longleftrightarrow>
     (susceptible p \<longrightarrow>
        \<not> exposed p \<and> \<not> infectious p \<and> \<not> recovered p \<and> \<not> died p \<and>
        date_recovered p = None \<and> date_died p = None) \<and>
     (infectious p \<longrightarrow> exposed p) \<and>
     (exposed p \<longrightarrow> \<not> recovered p \<and> \<not> died p) \<and>
     \<not> (recovered p \<and> died p) \<and>
     (\<not> susceptible p \<longrightarrow> exposed p \<or> recovered p \<or> died p) \<and>
     (date_recovered p = None \<or> date_died p = None)"


section \<open>Lemmas on the parameter dictionary\<close>

lemma ebind_Inl [simp]: "ebind (Inl e) f = Inl e"
  by (simp add: ebind_def)

lemma ebind_Inr [simp]: "ebind (Inr x) f = f x"
  by (simp add: ebind_def)

lemma ebind_eq_Inr: "ebind m f = Inr y \<longleftrightarrow> (\<exists>x. m = Inr x \<and> f x = Inr y)"
  by (cases m) simp_all

lemma keys_dict_set: "set (keys (dict_set d k v)) = insert k (set (keys d))"
  by (induction d k v rule: dict_set.induct) (auto simp: keys_def)

lemma keys_dict_set_mem: "k \<in> set (keys d) \<Longrightarrow> keys (dict_set d k v) = keys d"
  by (induction d k v rule: dict_set.induct) (auto simp: keys_def)

lemma map_of_dict_set: "map_of (dict_set d k v) = (map_of d)(k \<mapsto> v)"
  by (induction d k v rule: dict_set.induct) (auto simp: fun_eq_iff)

lemma keys_dict_update: "set (keys (dict_update d new)) = set (keys d) \<union> set (keys new)"
proof (induction d new rule: dict_update.induct)
  case (1 d)
  then show ?case by (simp add: keys_def)
next
  case (2 d k v other)
  have "set (keys ((k, v) # other)) = insert k (set (keys other))"
    by (simp add: keys_def)
  with 2 show ?case by (simp add: keys_dict_set)
qed

lemma map_of_dict_update: "map_of (dict_update d new) = map_of d ++ map_of (rev new)"
proof (induction d new rule: dict_update.induct)
  case (1 d)
  then show ?case by simp
next
  case (2 d k v other)
  have "map_of (rev other @ [(k, v)]) = [k \<mapsto> v] ++ map_of (rev other)"
    by (simp only: map_of_append) simp
  with 2 show ?case
    by (simp add: map_of_dict_set map_add_upd_left fun_eq_iff map_add_def split: option.splits)
qed

lemma map_of_None_keys: "map_of d k = None \<longleftrightarrow> k \<notin> set (keys d)"
  by (simp add: map_of_eq_None_iff keys_def)

lemma getitem_absent: "key \<notin> set (keys d) \<Longrightarrow> getitem d key = Inl (KeyError (Plain key))"
  by (simp add: getitem_def map_of_None_keys [symmetric])

lemma getitem_present: "key \<in> set (keys d) \<Longrightarrow> \<exists>v. getitem d key = Inr v"
  by (cases "map_of d key") (auto simp: getitem_def map_of_None_keys)

lemma getnum_absent: "key \<notin> set (keys d) \<Longrightarrow> getnum d key = Inl (KeyError (Plain key))"
  by (simp add: getnum_def getitem_absent)

lemma keys_dict_update_subset:
  "set (keys new) \<subseteq> set (keys d) \<Longrightarrow> keys (dict_update d new) = keys d"
proof (induction d new rule: dict_update.induct)
  case (1 d)
  then show ?case by simp
next
  case (2 d k v other)
  from "2.prems" have k: "k \<in> set (keys d)" and rest: "set (keys other) \<subseteq> set (keys d)"
    by (simp_all add: keys_def)
  from k have same: "keys (dict_set d k v) = keys d"
    by (rule keys_dict_set_mem)
  with rest "2.IH" show ?case by simp
qed

section \<open>Loops and what they leave alone\<close>

lemma efold_append: "efold f (xs @ ys) s = ebind (efold f xs s) (efold f ys)"
  by (induction xs arbitrary: s) (auto simp: ebind_def split: sum.splits)

lemma efold_invariant:
  assumes "efold f xs s = Inr s'" and "P s"
    and "\<And>x a b. x \<in> set xs \<Longrightarrow> P a \<Longrightarrow> f x a = Inr b \<Longrightarrow> P b"
  shows "P s'"
  using assms
proof (induction xs arbitrary: s)
  case Nil
  then show ?case by simp
next
  case (Cons x xs)
  from Cons.prems(1) obtain s1 where one: "f x s = Inr s1" and rest: "efold f xs s1 = Inr s'"
    by (auto simp: ebind_eq_Inr)
  have "P s1"
    by (rule Cons.prems(3) [of x s s1]) (simp_all add: Cons.prems(2) one)
  moreover have "\<And>y a b. y \<in> set xs \<Longrightarrow> P a \<Longrightarrow> f y a = Inr b \<Longrightarrow> P b"
    by (rule Cons.prems(3)) simp_all
  ultimately show ?case
    using rest by (rule Cons.IH [rotated])
qed

lemma map_update_same:
  "(\<And>p. g (f p) = g p) \<Longrightarrow> map g (ps[i := f (ps ! i)]) = map g ps"
  by (induction ps arbitrary: i) (auto split: nat.splits)

lemma kept_upd_person [simp]:
  "(\<And>p. diagnosed (f p) = diagnosed p) \<Longrightarrow> kept (upd_person i f x) = kept x"
  by (simp add: kept_def upd_person_def map_update_same)

lemma kept_rng [simp]: "kept (x\<lparr>rng := g\<rparr>) = kept x"
  by (simp add: kept_def)

lemma kept_results [simp]:
  "tests (f (results x)) = tests (results x) \<Longrightarrow>
   diagnoses (f (results x)) = diagnoses (results x) \<Longrightarrow>
   kept (results_update f x) = kept x"
  by (simp add: kept_def)

lemma kept_infect_person:
  assumes "infect_person U src tgt t s = Inr s'"
  shows "kept s' = kept s"
  using assms unfolding infect_person_def Let_def case_prod_beta
  by (auto simp: ebind_eq_Inr split: if_splits)

lemma kept_contact_step: "contact_step U t i c s = Inr s' \<Longrightarrow> kept s' = kept s"
  by (auto simp: contact_step_def ebind_eq_Inr Let_def case_prod_beta split: if_splits
        dest!: kept_infect_person)

lemma kept_contact_loop:
  assumes "contact_loop U t i cs s = Inr s'"
  shows "kept s' = kept s"
  using assms unfolding contact_loop_def
  by (rule efold_invariant [where P = "\<lambda>x. kept x = kept s"])
     (simp_all add: kept_contact_step)

lemma kept_step_exposed: "step_exposed t i s = Inr s' \<Longrightarrow> kept s' = kept s"
  by (auto simp: step_exposed_def Let_def split: if_splits option.splits)

lemma kept_step_infectious: "step_infectious U t i s = Inr s' \<Longrightarrow> kept s' = kept s"
  by (auto simp: step_infectious_def Let_def case_prod_beta ebind_eq_Inr
        split: if_splits dest!: kept_contact_loop)

lemma kept_person_step:
  "person_step U t i st = Inr st' \<Longrightarrow> kept (fst st') = kept (fst st)"
  by (cases st)
     (auto simp: person_step_def ebind_eq_Inr split: if_splits
        dest!: kept_step_exposed kept_step_infectious)

lemma kept_people_loop:
  assumes "people_loop U t inds st = Inr st'"
  shows "kept (fst st') = kept (fst st)"
  using assms unfolding people_loop_def
  by (rule efold_invariant [where P = "\<lambda>x. kept (fst x) = kept (fst st)"])
     (simp_all add: kept_person_step)

lemma testing_no_feed [simp]: "testing U t [] tp s = Inr s"
  by (simp add: testing_def)

lemma day_step_no_feed:
  assumes "day_step U verbose [] t s = Inr s'"
  shows "intervention U t (pars s) = Inr (pars s') \<and> kept (s'\<lparr>pars := pars s\<rparr>) = kept s"
proof -
  from assms obtain st d where
    loop: "people_loop U t [0..<length (people s)] (s, []) = Inr st"
    and iv: "intervention U t (pars (fst st)) = Inr d" and s': "s' = (fst st)\<lparr>pars := d\<rparr>"
    by (auto simp: day_step_def ebind_eq_Inr)
  from kept_people_loop [OF loop] have k: "kept (fst st) = kept s" by simp
  then have "pars (fst st) = pars s" by (simp add: kept_def)
  with iv s' k show ?thesis by (simp add: kept_def)
qed

section \<open>The intervention window\<close>

lemma getitem_dict_set:
  "getitem (dict_set d k v) k' = (if k' = k then Inr v else getitem d k')"
  by (simp add: getitem_def map_of_dict_set)

lemma getitem_Inr_key: "getitem d k = Inr v \<Longrightarrow> k \<in> set (keys d)"
  using map_of_None_keys [of d k] by (auto simp: getitem_def split: option.splits)

lemma setitem_present: "getitem d k = Inr v \<Longrightarrow> setitem sg d k w = Inr (dict_set d k w)"
  by (simp add: setitem_def getitem_Inr_key)

lemma getnum_Num: "getitem d k = Inr (Num r) \<Longrightarrow> getnum d k = Inr r"
  by (simp add: getnum_def num_def)

text \<open>The intervention block on a dictionary with an intervention from day \<open>a\<close> to day \<open>b\<close>.\<close>

lemma intervention_window:
  assumes "getitem d ''intervene'' = Inr (Num (real a))"
    and "getitem d ''unintervene'' = Inr (Num (real b))"
    and "getitem d ''intervention_eff'' = Inr (Num eff)"
    and "getitem d ''contacts'' = Inr (Num c)"
    and "a < b" and "eff \<noteq> 1"
  shows "intervention U t d =
           Inr (if t = a then dict_set d ''contacts'' (Num (c * (1 - eff)))
                else if t = b then dict_set d ''contacts'' (Num (c / (1 - eff)))
                else d)"
  using assms
  by (simp add: intervention_def getnum_Num setitem_present getitem_dict_set num_def pydiv_def)

lemma pars_init_results: "init_results s = Inr s' \<Longrightarrow> pars s' = pars s"
  by (auto simp: init_results_def ebind_eq_Inr Let_def split: if_splits)

lemma kept_seed_infection: "seed_infection i s = Inr s' \<Longrightarrow> kept s' = kept s"
  by (auto simp: seed_infection_def split: if_splits)

lemma kept_seed_infections:
  assumes "seed_infections ks s = Inr s'"
  shows "kept s' = kept s"
  using assms unfolding seed_infections_def
  by (rule efold_invariant [where P = "\<lambda>x. kept x = kept s"])
     (simp_all add: kept_seed_infection)

lemma pars_init_people: "init_people U s = Inr s' \<Longrightarrow> pars s' = pars s"
  by (auto simp: init_people_def ebind_eq_Inr kept_def dest!: kept_seed_infections)

lemma ebind_efold_Nil: "ebind m (efold f []) = m"
  by (cases m) simp_all

lemma run_days_snoc:
  "run_days U verbose feed (ts @ [t]) s =
     ebind (run_days U verbose feed ts s) (day_step U verbose feed t)"
  by (cases "efold (day_step U verbose feed) ts s")
     (simp_all add: run_days_def efold_append ebind_efold_Nil)

text \<open>
  The parameters after the first \<open>t\<close> days of the loop, for an intervention on day \<open>a\<close>
  that ends on day \<open>b\<close>.
\<close>

lemma run_days_window:
  assumes "getitem (pars s) ''intervene'' = Inr (Num (real a))"
    and "getitem (pars s) ''unintervene'' = Inr (Num (real b))"
    and "getitem (pars s) ''intervention_eff'' = Inr (Num eff)"
    and "getitem (pars s) ''contacts'' = Inr (Num c)"
    and "a < b" and "eff \<noteq> 1"
    and "run_days U verbose [] [0..<t] s = Inr s'"
  shows "getitem (pars s') ''intervene'' = Inr (Num (real a)) \<and>
         getitem (pars s') ''unintervene'' = Inr (Num (real b)) \<and>
         getitem (pars s') ''intervention_eff'' = Inr (Num eff) \<and>
         getitem (pars s') ''contacts'' =
           Inr (Num (if a < t \<and> t \<le> b then c * (1 - eff) else c))"
  using assms(7)
proof (induction t arbitrary: s')
  case 0
  then have "s' = s" by (simp add: run_days_def)
  with assms(1-4) show ?case by simp
next
  case (Suc t)
  from Suc.prems obtain s1 where
    before: "run_days U verbose [] [0..<t] s = Inr s1"
    and day: "day_step U verbose [] t s1 = Inr s'"
    by (auto simp: run_days_snoc ebind_eq_Inr)
  note IH = Suc.IH [OF before]
  from day_step_no_feed [OF day] have iv: "intervention U t (pars s1) = Inr (pars s')"
    by simp
  from IH have scen:
    "getitem (pars s1) ''intervene'' = Inr (Num (real a))"
    "getitem (pars s1) ''unintervene'' = Inr (Num (real b))"
    "getitem (pars s1) ''intervention_eff'' = Inr (Num eff)"
    "getitem (pars s1) ''contacts'' =
       Inr (Num (if a < t \<and> t \<le> b then c * (1 - eff) else c))"
    by simp_all
  from intervention_window [OF scen \<open>a < b\<close> \<open>eff \<noteq> 1\<close>, of U t] iv
  have eq: "pars s' =
      (if t = a then dict_set (pars s1) ''contacts''
                       (Num ((if a < t \<and> t \<le> b then c * (1 - eff) else c) * (1 - eff)))
       else if t = b then dict_set (pars s1) ''contacts''
                       (Num ((if a < t \<and> t \<le> b then c * (1 - eff) else c) / (1 - eff)))
       else pars s1)"
    by simp
  show ?case
  proof (cases "t = a")
    case True
    with eq scen \<open>a < b\<close> show ?thesis by (simp add: getitem_dict_set)
  next
    case False
    show ?thesis
    proof (cases "t = b")
      case True
      with eq scen \<open>a < b\<close> \<open>eff \<noteq> 1\<close> show ?thesis by (simp add: getitem_dict_set)
    next
      case nb: False
      with False eq scen \<open>a < b\<close> show ?thesis by (auto simp: less_Suc_eq)
    qed
  qed
qed

text \<open>The state at the end of a day, as a state of the loop of \<^verbatim>\<open>Sim.run\<close>.\<close>

lemma day_end_Some_Inr:
  assumes "day_end U verbose s t = Some (Inr s')"
  shows "\<exists>s1 s2 n. init_results s = Inr s1 \<and> init_people U s1 = Inr s2 \<and>
           npts (pars s) = Inr n \<and> int t < n \<and> pars s2 = pars s \<and>
           run_days U verbose [] [0..<Suc t] s2 = Inr s'"
proof -
  from assms obtain s1 s2 n where
    r: "init_results s = Inr s1" and p: "init_people U s1 = Inr s2"
    and n: "npts (pars s2) = Inr n" and t: "int t < n"
    and d: "run_days U verbose [] (take (Suc t) [0..<nat n]) s2 = Inr s'"
    by (auto simp: day_end_def ebind_eq_Inr split: sum.splits if_splits)
  from pars_init_results [OF r] pars_init_people [OF p] have same: "pars s2 = pars s"
    by simp
  from t have "take (Suc t) [0..<nat n] = [0..<Suc t]"
    by (simp add: take_upt)
  with r p n t d same show ?thesis by auto
qed

lemma run_loop_day_end:
  assumes "run_loop U verbose s = Inr s'" and "npts (pars s) = Inr n" and "int t < n"
  shows "\<exists>s_t. day_end U verbose s t = Some (Inr s_t) \<and>
               run_days U verbose [] [Suc t..<nat n] s_t = Inr s'"
proof -
  from assms(1) obtain s1 s2 n' where
    r: "init_results s = Inr s1" and p: "init_people U s1 = Inr s2"
    and n': "npts (pars s2) = Inr n'"
    and d': "run_days U verbose [] [0..<nat n'] s2 = Inr s'"
    by (auto simp: run_loop_def ebind_eq_Inr)
  from pars_init_results [OF r] pars_init_people [OF p] assms(2) n'
  have n: "npts (pars s2) = Inr n" and d: "run_days U verbose [] [0..<nat n] s2 = Inr s'"
    using d' by simp_all
  from assms(3) have le: "Suc t \<le> nat n" by simp
  have split: "[0..<nat n] = [0..<Suc t] @ [Suc t..<nat n]"
    using upt_add_eq_append [of 0 "Suc t" "nat n - Suc t"] le by simp
  from assms(3) have tk: "take (Suc t) [0..<nat n] = [0..<Suc t]"
    by (simp add: take_upt)
  from d have "efold (day_step U verbose []) ([0..<Suc t] @ [Suc t..<nat n]) s2 = Inr s'"
    by (simp only: run_days_def split [symmetric])
  then have "ebind (efold (day_step U verbose []) [0..<Suc t] s2)
      (efold (day_step U verbose []) [Suc t..<nat n]) = Inr s'"
    by (simp only: efold_append)
  then obtain s_t where "efold (day_step U verbose []) [0..<Suc t] s2 = Inr s_t"
    and "efold (day_step U verbose []) [Suc t..<nat n] s_t = Inr s'"
    by (auto simp only: ebind_eq_Inr)
  then have "run_days U verbose [] [0..<Suc t] s2 = Inr s_t"
    and "run_days U verbose [] [Suc t..<nat n] s_t = Inr s'"
    by (simp_all only: run_days_def)
  with r p n assms(3) tk show ?thesis
    by (simp add: day_end_def)
qed

text \<open>
  Claim C6. With the intervention on day 10, efficacy one half and the end of the
  intervention on day 20, the value of \<^verbatim>\<open>contacts\<close> at the end of day \<open>t\<close> is half of the
  value \<open>c\<close> at the start of the run exactly for the days 10 to 19, and it is \<open>c\<close> again at
  the end of every day from day 20 on (and it is \<open>c\<close> before day 10): there is one window.
  The values are reals; multiplying and dividing by one half is exact.
\<close>

theorem contacts_intervention_window:
  assumes "getitem (pars s) ''intervene'' = Inr (Num 10)"
    and "getitem (pars s) ''unintervene'' = Inr (Num 20)"
    and "getitem (pars s) ''intervention_eff'' = Inr (Num (1 / 2))"
    and "getitem (pars s) ''contacts'' = Inr (Num c)"
    and "contacts_after_day U verbose s t = Some (Inr x)"
  shows "x = (if 10 \<le> t \<and> t \<le> 19 then c / 2 else c)"
proof -
  from assms(5) obtain s' where
    e: "day_end U verbose s t = Some (Inr s')" and x: "getnum (pars s') ''contacts'' = Inr x"
    by (cases "day_end U verbose s t")
       (auto simp: contacts_after_day_def ebind_eq_Inr)
  from day_end_Some_Inr [OF e] obtain s2 where
    same: "pars s2 = pars s" and d: "run_days U verbose [] [0..<Suc t] s2 = Inr s'"
    by blast
  have "getitem (pars s') ''contacts'' =
          Inr (Num (if 10 < Suc t \<and> Suc t \<le> 20 then c * (1 - 1 / 2) else c))"
    using run_days_window [of s2 10 20 "1 / 2" c U verbose "Suc t" s'] assms(1-4) same d
    by simp
  with x show ?thesis
    by (auto simp: getnum_def num_def split: if_splits)
qed

theorem contacts_intervention_window_witness:
  "getitem intervention_pars ''intervene'' = Inr (Num 10) \<and>
   getitem intervention_pars ''unintervene'' = Inr (Num 20) \<and>
   getitem intervention_pars ''intervention_eff'' = Inr (Num (1 / 2)) \<and>
   getitem intervention_pars ''contacts'' = Inr (Num 4) \<and>
   contacts_after_day (tape_utils [[1], [2]]) (Num 0) (blank_sim intervention_pars []) 9
     = Some (Inr 4) \<and>
   contacts_after_day (tape_utils [[1], [2]]) (Num 0) (blank_sim intervention_pars []) 10
     = Some (Inr 2) \<and>
   contacts_after_day (tape_utils [[1], [2]]) (Num 0) (blank_sim intervention_pars []) 19
     = Some (Inr 2) \<and>
   contacts_after_day (tape_utils [[1], [2]]) (Num 0) (blank_sim intervention_pars []) 20
     = Some (Inr 4) \<and>
   contacts_after_day (tape_utils [[1], [2]]) (Num 0) (blank_sim intervention_pars []) 25
     = Some (Inr 4) \<and>
   contacts_after_day (tape_utils [[1], [2]]) (Num 0) (blank_sim intervention_pars []) 26
     = None"
proof -
  let ?U = "tape_utils [[1], [2]] :: (nat list list) utils"
  let ?s = "blank_sim intervention_pars ([] :: nat list list)"
  have p: "pars ?s = intervention_pars" by (simp add: blank_sim_def)
  have a: "getitem intervention_pars ''intervene'' = Inr (Num 10)"
    "getitem intervention_pars ''unintervene'' = Inr (Num 20)"
    "getitem intervention_pars ''intervention_eff'' = Inr (Num (1 / 2))"
    "getitem intervention_pars ''contacts'' = Inr (Num 4)"
    by code_simp+
  from a p have 1: "getitem (pars ?s) ''intervene'' = Inr (Num 10)"
    and 2: "getitem (pars ?s) ''unintervene'' = Inr (Num 20)"
    and 3: "getitem (pars ?s) ''intervention_eff'' = Inr (Num (1 / 2))"
    and 4: "getitem (pars ?s) ''contacts'' = Inr (Num 4)"
    by simp_all
  have ten: "contacts_after_day ?U (Num 0) ?s 10 = Some (Inr 2)"
    by code_simp
  note window = contacts_intervention_window [OF 1 2 3 4 ten]
  have others: "contacts_after_day ?U (Num 0) ?s 9 = Some (Inr 4)"
    "contacts_after_day ?U (Num 0) ?s 19 = Some (Inr 2)"
    "contacts_after_day ?U (Num 0) ?s 20 = Some (Inr 4)"
    "contacts_after_day ?U (Num 0) ?s 25 = Some (Inr 4)"
    "contacts_after_day ?U (Num 0) ?s 26 = None"
    by code_simp+
  from window a ten others show ?thesis by simp
qed

section \<open>The parameter store\<close>

text \<open>
  Claim C7, as the code has it. For a key that is absent from the store,
  \<^verbatim>\<open>__getitem__\<close> fails with the dictionary's own key error, which carries the key and no
  suggestion; \<^verbatim>\<open>__setitem__\<close> fails with a key error that carries the suggestion when
  \<^verbatim>\<open>sc.suggest\<close> returns a non-empty one, and the list of the available keys otherwise.
  Whenever \<^verbatim>\<open>__setitem__\<close> succeeds, the keys of the store are the same as before.
\<close>

theorem absent_key_errors:
  "(key \<notin> set (keys d) \<longrightarrow>
      getitem d key = Inl (KeyError (Plain key)) \<and>
      setitem suggest d key v =
        Inl (KeyError (case suggest key (keys d) of
                         None \<Rightarrow> Available key (keys d)
                       | Some s \<Rightarrow> if s \<noteq> [] then DidYouMean key s
                                   else Available key (keys d)))) \<and>
   (\<forall>d'. setitem suggest d key v = Inr d' \<longrightarrow> keys d' = keys d)"
  by (auto simp: getitem_absent setitem_def keys_dict_set_mem split: option.splits)

theorem absent_key_errors_witness:
  "''r0'' \<notin> set (keys make_pars) \<and>
   getitem make_pars ''r0'' = Inl (KeyError (Plain ''r0'')) \<and>
   setitem (\<lambda>k ks. Some ''r_contact'') make_pars ''r0'' (Num 2) =
     Inl (KeyError (DidYouMean ''r0'' ''r_contact'')) \<and>
   setitem (\<lambda>k ks. None) make_pars ''r0'' (Num 2) =
     Inl (KeyError (Available ''r0'' (keys make_pars))) \<and>
   setitem (\<lambda>k ks. None) make_pars ''scale'' (Num 2) =
     Inr (dict_set make_pars ''scale'' (Num 2)) \<and>
   keys (dict_set make_pars ''scale'' (Num 2)) = keys make_pars"
proof -
  have absent: "''r0'' \<notin> set (keys make_pars)"
    by (simp add: make_pars_def keys_def)
  have "''scale'' \<in> set (keys make_pars)"
    by (simp add: make_pars_def keys_def)
  then have present: "setitem (\<lambda>k ks. None) make_pars ''scale'' (Num 2) =
      Inr (dict_set make_pars ''scale'' (Num 2))"
    by (simp add: setitem_def)
  note with_suggestion =
    absent_key_errors [of "''r0''" make_pars "\<lambda>k ks. Some ''r_contact''" "Num 2",
      THEN conjunct1, THEN mp, OF absent]
  note without_suggestion =
    absent_key_errors [of "''r0''" make_pars "\<lambda>k ks. None" "Num 2",
      THEN conjunct1, THEN mp, OF absent]
  note same_keys =
    absent_key_errors [of "''scale''" make_pars "\<lambda>k ks. None" "Num 2",
      THEN conjunct2, THEN spec, THEN mp, OF present]
  from absent present with_suggestion without_suggestion same_keys
  show ?thesis by simp
qed

text \<open>
  Claim C7, as the specification states it, fails for reading: the error of
  \<^verbatim>\<open>__getitem__\<close> for the missing key \<^verbatim>\<open>r_contac\<close> carries the key only, although the
  store has the key \<^verbatim>\<open>r_contact\<close>.
\<close>

theorem getitem_error_has_no_suggestion:
  "getitem make_pars ''r_contac'' = Inl (KeyError (Plain ''r_contac'')) \<and>
   (\<forall>s. getitem make_pars ''r_contac'' \<noteq> Inl (KeyError (DidYouMean ''r_contac'' s)))"
  by (simp add: getitem_def make_pars_def)

text \<open>
  Claim C8, as the code has it. On a store that exists, \<^verbatim>\<open>update_pars\<close> with a dict is
  \<^verbatim>\<open>dict.update\<close>: the keys afterwards are the keys of the store together with the keys of
  the mapping, every key of the mapping gets the mapping's value and every other key keeps
  its value. The keys are unchanged when every key of the mapping is already in the store.
\<close>

theorem update_pars_merges:
  "update_pars (Some d) (DictArg new) = Inr (dict_update d new) \<and>
   set (keys (dict_update d new)) = set (keys d) \<union> set (keys new) \<and>
   map_of (dict_update d new) = map_of d ++ map_of (rev new) \<and>
   (set (keys new) \<subseteq> set (keys d) \<longrightarrow> keys (dict_update d new) = keys d)"
  by (simp add: update_pars_def keys_dict_update map_of_dict_update keys_dict_update_subset)

theorem update_pars_merges_witness:
  "set (keys [(''scale'', Num 2), (''n'', Num 50)]) \<subseteq> set (keys make_pars) \<and>
   update_pars (Some make_pars) (DictArg [(''scale'', Num 2), (''n'', Num 50)]) =
     Inr (dict_update make_pars [(''scale'', Num 2), (''n'', Num 50)]) \<and>
   keys (dict_update make_pars [(''scale'', Num 2), (''n'', Num 50)]) = keys make_pars"
proof -
  have sub: "set (keys [(''scale'', Num 2), (''n'', Num 50)]) \<subseteq> set (keys make_pars)"
    by (simp add: make_pars_def keys_def)
  note u = update_pars_merges [of make_pars "[(''scale'', Num 2), (''n'', Num 50)]"]
  from u have "update_pars (Some make_pars) (DictArg [(''scale'', Num 2), (''n'', Num 50)]) =
     Inr (dict_update make_pars [(''scale'', Num 2), (''n'', Num 50)])"
    by (rule conjunct1)
  moreover from u sub
  have "keys (dict_update make_pars [(''scale'', Num 2), (''n'', Num 50)]) = keys make_pars"
    by blast
  ultimately show ?thesis using sub by blast
qed

text \<open>
  Claim C8, as the specification states it, fails: updating the default parameters with
  a mapping that has the new key \<^verbatim>\<open>r0\<close> adds that key to the store.
\<close>

theorem update_pars_adds_key:
  "map_sum id keys (update_pars (Some make_pars) (DictArg [(''r0'', Num 2)])) =
     Inr (keys make_pars @ [''r0'']) \<and>
   keys make_pars @ [''r0''] \<noteq> keys make_pars"
  by (simp add: update_pars_def make_pars_def keys_def)

section \<open>Death, recovery and the seed infections on concrete runs\<close>

text \<open>
  Claim C1 against the code. \<^verbatim>\<open>single_run\<close> on \<open>demo_pars\<close>, with the contact lists
  \<open>[1]\<close> for person 0 on day 0 and \<open>[2]\<close> for person 1 on day 2, and no other contact.
  Person 1 is exposed on day 0 and its day of death is day 2. On day 2 the death is
  recorded (\<open>deaths = [0, 0, 1]\<close>, \<open>died\<close> is set and \<open>infectious\<close> is cleared), and in the
  same pass person 1 is counted in \<open>n_infectious\<close> for day 2 (which is 2: person 0 and
  person 1) and draws a contact: the transmission tree records that person 2 was
  infected by person 1 on day 2.
\<close>

theorem dying_person_counted_and_infects:
  "map_sum id
     (\<lambda>s. (deaths (results s), n_infectious (results s), transtree (results s),
           map (\<lambda>p. (died p, infectious p, date_died p)) (people s)))
     (single_run (tape_utils [[1], [], [], [], [2], []]) None (Some demo_pars) 0 0 None [])
   = Inr ([0, 0, 1], [1, 2, 2], [(1, 0, 0), (2, 1, 2)],
          [(False, True, None), (True, False, Some 2), (False, False, Some 4)])"
  by code_simp

text \<open>
  Claim C2 against the code. After \<^verbatim>\<open>Sim.__init__\<close> on \<open>demo_pars\<close> the seed person
  (person 0) is exposed and infectious with day of exposure 0 and infectious day 0, and
  has neither a day of recovery nor a day of death; after the whole run it is still so.
\<close>

theorem seed_person_has_no_outcome_day:
  "map_sum id
     (\<lambda>s. map (\<lambda>p. (exposed p, infectious p, date_exposed p, date_infectious p,
                     date_recovered p, date_died p)) (take 1 (people s)))
     (Sim_init (tape_utils []) (Some demo_pars) [])
   = Inr [(True, True, Some 0, Some 0, None, None)] \<and>
   map_sum id
     (\<lambda>s. map (\<lambda>p. (exposed p, infectious p, date_exposed p, date_infectious p,
                     date_recovered p, date_died p)) (take 1 (people s)))
     (single_run (tape_utils []) None (Some demo_pars) 0 0 None [])
   = Inr [(True, True, Some 0, Some 0, None, None)]"
  by code_simp

section \<open>The testing block without a feed\<close>

lemma init_results_zero:
  assumes "init_results s = Inr s1"
  shows "\<exists>n. npts (pars s) = Inr (int n) \<and>
             tests (results s1) = replicate n 0 \<and>
             diagnoses (results s1) = replicate n 0 \<and>
             infections (results s1) = replicate n 0 \<and>
             people s1 = people s \<and> pars s1 = pars s \<and> rng s1 = rng s"
proof -
  from assms obtain m where m: "npts (pars s) = Inr m" and pos: "\<not> m < 0"
    and s1: "s1 = s\<lparr>results :=
               \<lparr>n_susceptible = replicate (nat m) 0, n_exposed = replicate (nat m) 0,
                n_infectious = replicate (nat m) 0, n_recovered = replicate (nat m) 0,
                infections = replicate (nat m) 0, tests = replicate (nat m) 0,
                diagnoses = replicate (nat m) 0, recoveries = replicate (nat m) 0,
                deaths = replicate (nat m) 0, cum_exposed = replicate (nat m) 0,
                cum_tested = replicate (nat m) 0, cum_diagnosed = replicate (nat m) 0,
                cum_deaths = replicate (nat m) 0, tvec = [0..<nat m], transtree = [],
                ready = False\<rparr>\<rparr>"
    by (auto simp: init_results_def ebind_eq_Inr Let_def split: if_splits)
  from pos have "m = int (nat m)" by simp
  with m s1 show ?thesis by (intro exI [of _ "nat m"]) simp
qed

lemma make_person_undiagnosed:
  "make_person U d p acc = Inr acc' \<Longrightarrow>
   list_all (\<lambda>p. \<not> diagnosed p) (fst acc) \<Longrightarrow> list_all (\<lambda>p. \<not> diagnosed p) (fst acc')"
  by (cases acc)
     (auto simp: make_person_def ebind_eq_Inr Person_def split: prod.splits)

lemma make_people_undiagnosed:
  assumes "make_people U d ns ([], g) = Inr (ps, g')"
  shows "list_all (\<lambda>p. \<not> diagnosed p) ps"
proof -
  from assms have "efold (make_person U d) ns ([], g) = Inr (ps, g')"
    by (simp add: make_people_def)
  then have "list_all (\<lambda>p. \<not> diagnosed p) (fst (ps, g'))"
    by (rule efold_invariant) (simp_all add: make_person_undiagnosed)
  then show ?thesis by simp
qed

lemma list_all_map_False: "list_all (\<lambda>p. \<not> f p) ps \<longleftrightarrow> True \<notin> set (map f ps)"
  by (induction ps) auto

lemma list_all_replicate_False:
  "list_all (\<lambda>p. \<not> f p) ps \<Longrightarrow> map f ps = replicate (length ps) False"
  by (induction ps) auto

lemma init_people_undiagnosed:
  assumes "init_people U s = Inr s'"
  shows "tests (results s') = tests (results s) \<and>
         diagnoses (results s') = diagnoses (results s) \<and>
         list_all (\<lambda>p. \<not> diagnosed p) (people s')"
proof -
  from assms obtain ps g ks where
    made: "make_people U (pars s) [0..<ks] ([], rng s) = Inr (ps, g)"
    and seeded: "\<exists>ks'. seed_infections ks' (s\<lparr>people := ps, rng := g\<rparr>) = Inr s'"
    by (auto simp: init_people_def ebind_eq_Inr)
  from seeded obtain ks' where "seed_infections ks' (s\<lparr>people := ps, rng := g\<rparr>) = Inr s'" ..
  from kept_seed_infections [OF this]
  have "kept s' = kept (s\<lparr>people := ps, rng := g\<rparr>)" .
  with make_people_undiagnosed [OF made] show ?thesis
    by (simp add: kept_def list_all_map_False)
qed

lemma day_step_no_feed_kept:
  assumes "day_step U verbose [] t s = Inr s'"
  shows "tests (results s') = tests (results s) \<and>
         diagnoses (results s') = diagnoses (results s) \<and>
         map diagnosed (people s') = map diagnosed (people s)"
  using day_step_no_feed [OF assms] by (simp add: kept_def)

lemma run_days_no_feed_kept:
  assumes "run_days U verbose [] ts s = Inr s'"
  shows "tests (results s') = tests (results s) \<and>
         diagnoses (results s') = diagnoses (results s) \<and>
         map diagnosed (people s') = map diagnosed (people s)"
  using assms unfolding run_days_def
  by (rule efold_invariant
        [where P = "\<lambda>x. tests (results x) = tests (results s) \<and>
                         diagnoses (results x) = diagnoses (results s) \<and>
                         map diagnosed (people x) = map diagnosed (people s)"])
     (auto dest: day_step_no_feed_kept)

lemma cumsum_from_zeros: "cumsum_from 0 (replicate n 0) = replicate n 0"
  by (induction n) simp_all

lemma run_loop_no_tests:
  assumes "run_loop U verbose s = Inr s'"
  shows "\<exists>n. npts (pars s) = Inr (int n) \<and> tests (results s') = replicate n 0 \<and>
             diagnoses (results s') = replicate n 0 \<and>
             list_all (\<lambda>p. \<not> diagnosed p) (people s')"
proof -
  from assms obtain s1 s2 ts where
    r: "init_results s = Inr s1" and p: "init_people U s1 = Inr s2"
    and d: "run_days U verbose [] ts s2 = Inr s'"
    by (auto simp: run_loop_def ebind_eq_Inr)
  from init_results_zero [OF r] obtain n where
    n: "npts (pars s) = Inr (int n)" "tests (results s1) = replicate n 0"
       "diagnoses (results s1) = replicate n 0"
    by blast
  from init_people_undiagnosed [OF p] run_days_no_feed_kept [OF d] n
  show ?thesis by (intro exI [of _ n]) (simp add: list_all_map_False)
qed

text \<open>
  Claim C9. \<^verbatim>\<open>Sim.run\<close> passes the empty list as the feed of daily tests, and with the
  empty feed the testing block of every day leaves the state as it is. So in the result
  of every run that returns, the series \<^verbatim>\<open>tests\<close> and \<^verbatim>\<open>diagnoses\<close> (and their
  cumulative series) are 0 on each of the \<^verbatim>\<open>npts\<close> days, and no person is marked as
  diagnosed.
\<close>

theorem no_tests_no_diagnoses:
  assumes "Sim_run U verbose s = Inr s'"
  shows "(\<forall>t tp x. testing U t [] tp x = Inr x) \<and>
         (\<exists>n. npts (pars s) = Inr (int n) \<and>
              tests (results s') = replicate n 0 \<and>
              diagnoses (results s') = replicate n 0 \<and>
              cum_tested (results s') = replicate n 0 \<and>
              cum_diagnosed (results s') = replicate n 0) \<and>
         list_all (\<lambda>p. \<not> diagnosed p) (people s')"
proof -
  from assms obtain v s3 sc where
    loop: "run_loop U v s = Inr s3"
    and s': "s' = s3\<lparr>results := finish_results sc (results s3)\<rparr>"
    by (auto simp: Sim_run_def ebind_eq_Inr Let_def split: if_splits)
  from run_loop_no_tests [OF loop] obtain n where
    n: "npts (pars s) = Inr (int n)" "tests (results s3) = replicate n 0"
       "diagnoses (results s3) = replicate n 0"
    and un: "list_all (\<lambda>p. \<not> diagnosed p) (people s3)"
    by blast
  from n s' have "tests (results s') = replicate n 0 \<and>
              diagnoses (results s') = replicate n 0 \<and>
              cum_tested (results s') = replicate n 0 \<and>
              cum_diagnosed (results s') = replicate n 0"
    by (simp add: finish_results_def Let_def cumsum_def cumsum_from_zeros)
  with n(1) un s' show ?thesis by auto
qed

theorem no_tests_no_diagnoses_witness:
  "\<exists>s'. Sim_run (tape_utils []) None (blank_sim demo_pars [[1], [], [], [], [2], []]) = Inr s' \<and>
        npts demo_pars = Inr 3 \<and>
        tests (results s') = [0, 0, 0] \<and> diagnoses (results s') = [0, 0, 0] \<and>
        cum_tested (results s') = [0, 0, 0] \<and> cum_diagnosed (results s') = [0, 0, 0] \<and>
        map diagnosed (people s') = [False, False, False] \<and>
        infections (results s') = [2, 0, 1]"
proof -
  let ?run = "Sim_run (tape_utils []) None (blank_sim demo_pars [[1], [], [], [], [2], []])"
  have "\<not> isl ?run" by code_simp
  then obtain s' where run: "?run = Inr s'" by (cases ?run) auto
  have n: "npts demo_pars = Inr 3" by code_simp
  have rest: "map_sum id (\<lambda>s. (length (people s), infections (results s))) ?run
      = Inr (3, [2, 0, 1])"
    by code_simp
  from rest run have len: "length (people s') = 3" by simp
  from no_tests_no_diagnoses [OF run] have "list_all (\<lambda>p. \<not> diagnosed p) (people s')"
    by simp
  then have "map diagnosed (people s') = replicate (length (people s')) False"
    by (rule list_all_replicate_False)
  with len have flags: "map diagnosed (people s') = [False, False, False]"
    by (simp add: numeral_3_eq_3)
  from no_tests_no_diagnoses [OF run] n rest run flags
  show ?thesis
    by (auto simp: blank_sim_def numeral_3_eq_3)
qed

section \<open>The default parameters\<close>

lemma make_pars_values:
  "getitem make_pars ''seed'' = Inr (Num 1)"
  "getitem make_pars ''verbose'' = Inr (Num 1)"
  "getitem make_pars ''n'' = Inr (Num 10000)"
  "getitem make_pars ''n_infected'' = Inr (Num 1)"
  "getitem make_pars ''n_days'' = Inr (Num 54)"
  "getitem make_pars ''usepopdata'' = Inr (Num 0)"
  "getitem make_pars ''symptomatic'' = Inr (Num 5)"
  "getitem make_pars ''contacts'' = Inr (Num 20)"
  by (simp_all add: make_pars_def getitem_def)

lemma make_pars_missing:
  "''r0'' \<notin> set (keys make_pars)" "''intervene'' \<notin> set (keys make_pars)"
  "''unintervene'' \<notin> set (keys make_pars)" "''intervention_eff'' \<notin> set (keys make_pars)"
  by (simp_all add: make_pars_def keys_def)

lemma make_person_synthetic:
  assumes "getitem d ''usepopdata'' = Inr v" and "\<not> truthy v"
  shows "\<exists>a sx g'. make_person U d p (ps, g) = Inr (ps @ [Person (length ps) a sx], g')"
  using assms by (auto simp: make_person_def get_age_sex_def Let_def case_prod_beta)

lemma fresh_person:
  assumes "p = Person (uid p) (age p) (sex p)"
  shows "susceptible p \<and> \<not> exposed p \<and> \<not> infectious p \<and> \<not> recovered p \<and> \<not> died p \<and>
         \<not> diagnosed p \<and> date_exposed p = None \<and> date_infectious p = None \<and>
         date_recovered p = None \<and> date_died p = None"
proof -
  have "susceptible (Person u a x) \<and> \<not> exposed (Person u a x) \<and>
        \<not> infectious (Person u a x) \<and> \<not> recovered (Person u a x) \<and>
        \<not> died (Person u a x) \<and> \<not> diagnosed (Person u a x) \<and>
        date_exposed (Person u a x) = None \<and> date_infectious (Person u a x) = None \<and>
        date_recovered (Person u a x) = None \<and> date_died (Person u a x) = None"
    for u a x
    by (simp add: Person_def)
  from this [of "uid p" "age p" "sex p"] assms show ?thesis by simp
qed

lemma Person_fresh: "Person u a x = Person (uid (Person u a x)) (age (Person u a x)) (sex (Person u a x))"
  by (simp add: Person_def)

lemma make_people_synthetic:
  assumes "getitem d ''usepopdata'' = Inr v" and "\<not> truthy v"
  shows "\<exists>ps' g'. make_people U d ns (ps, g) = Inr (ps @ ps', g') \<and>
           length ps' = length ns \<and>
           list_all (\<lambda>p. p = Person (uid p) (age p) (sex p)) ps'"
proof (induction ns arbitrary: ps g)
  case Nil
  then show ?case by (simp add: make_people_def)
next
  case (Cons n ns)
  from make_person_synthetic [OF assms, of U n ps g] obtain a sx g1 where
    one: "make_person U d n (ps, g) = Inr (ps @ [Person (length ps) a sx], g1)"
    by blast
  from Cons.IH [of "ps @ [Person (length ps) a sx]" g1] obtain ps' g' where
    rest: "make_people U d ns (ps @ [Person (length ps) a sx], g1)
             = Inr ((ps @ [Person (length ps) a sx]) @ ps', g')"
    and len: "length ps' = length ns"
    and fresh: "list_all (\<lambda>p. p = Person (uid p) (age p) (sex p)) ps'"
    by blast
  from one rest have "make_people U d (n # ns) (ps, g)
      = Inr (ps @ (Person (length ps) a sx # ps'), g')"
    by (simp add: make_people_def)
  moreover from len have "length (Person (length ps) a sx # ps') = length (n # ns)"
    by simp
  moreover from fresh
  have "list_all (\<lambda>p. p = Person (uid p) (age p) (sex p)) (Person (length ps) a sx # ps')"
    using Person_fresh [of "length ps" a sx] by simp
  ultimately show ?case by blast
qed

text \<open>
  The people of a simulation on the default parameters, after \<^verbatim>\<open>init_people\<close>: person 0 is
  the seed, which has no day of recovery and no day of death, and all others are
  susceptible.
\<close>

lemma init_people_default:
  assumes "pars s = make_pars" and "infections (results s) \<noteq> []"
  shows "\<exists>s'. init_people U s = Inr s' \<and> pars s' = make_pars \<and>
           length (people s') = 10000 \<and>
           \<not> susceptible (people s' ! 0) \<and> exposed (people s' ! 0) \<and>
           infectious (people s' ! 0) \<and> \<not> recovered (people s' ! 0) \<and>
           date_died (people s' ! 0) = None \<and> date_recovered (people s' ! 0) = None \<and>
           (\<forall>i. 0 < i \<and> i < 10000 \<longrightarrow> susceptible (people s' ! i))"
proof -
  have falsy: "\<not> truthy (Num 0)" by (simp add: truthy_def)
  from make_people_synthetic [OF make_pars_values(6) falsy, of U "[0..<10000]" "[]" "rng s"]
  obtain ps g where made: "make_people U make_pars [0..<10000] ([], rng s) = Inr (ps, g)"
    and len: "length ps = 10000"
    and fresh: "list_all (\<lambda>p. p = Person (uid p) (age p) (sex p)) ps"
    by (auto simp del: upt_rec_numeral)
  let ?seed = "\<lambda>p. p\<lparr>susceptible := False, exposed := True, infectious := True,
                        date_exposed := Some 0, date_infectious := Some 0\<rparr>"
  let ?s' = "upd_person 0 ?seed
               (results_update (infections_update (incr 0)) (s\<lparr>people := ps, rng := g\<rparr>))"
  from fresh len have "\<And>i. i < 10000 \<Longrightarrow> ps ! i = Person (uid (ps ! i)) (age (ps ! i)) (sex (ps ! i))"
    by (simp add: list_all_length)
  from fresh_person [OF this] have others: "\<And>i. i < 10000 \<Longrightarrow> susceptible (ps ! i)"
    and fresh0: "\<not> recovered (ps ! 0) \<and> date_died (ps ! 0) = None \<and>
                 date_recovered (ps ! 0) = None"
    by simp_all
  from len have ne: "ps \<noteq> []" by auto
  have "init_people U s = Inr ?s'"
    using assms made len ne
    by (simp add: init_people_def getnum_Num make_pars_values py_int_def
          seed_infections_def seed_infection_def del: upt_rec_numeral)
  moreover have "pars ?s' = make_pars"
    using assms by (simp add: upd_person_def)
  moreover have "length (people ?s') = 10000"
    using len by (simp add: upd_person_def)
  moreover have "\<not> susceptible (people ?s' ! 0) \<and> exposed (people ?s' ! 0) \<and>
           infectious (people ?s' ! 0) \<and> \<not> recovered (people ?s' ! 0) \<and>
           date_died (people ?s' ! 0) = None \<and> date_recovered (people ?s' ! 0) = None"
    using len fresh0 by (simp add: upd_person_def)
  moreover have "\<forall>i. 0 < i \<and> i < 10000 \<longrightarrow> susceptible (people ?s' ! i)"
    using others by (simp add: upd_person_def)
  ultimately show ?thesis by blast
qed

lemma contact_loop_default:
  assumes "pars s = make_pars"
  shows "contact_loop U t i cs s = (if cs = [] then Inr s else Inl (KeyError (Plain ''r0'')))"
  using assms
  by (cases cs)
     (simp_all add: contact_loop_def contact_step_def getitem_absent make_pars_missing)

text \<open>The pass of the seed person on the default parameters, before it is resolved.\<close>

lemma person_step_seed_default:
  assumes "pars s = make_pars"
    and "\<not> susceptible (people s ! i)" "exposed (people s ! i)" "infectious (people s ! i)"
    and "\<not> recovered (people s ! i)"
    and "date_died (people s ! i) = None" "date_recovered (people s ! i) = None"
  shows "person_step U t i (s, tp) = Inl (KeyError (Plain ''r0'')) \<or>
         (\<exists>s' tp'. person_step U t i (s, tp) = Inr (s', tp') \<and> pars s' = make_pars \<and>
                    people s' = people s)"
proof -
  let ?s1 = "results_update (n_exposed_update (incr t)) s"
  let ?s2 = "results_update (n_infectious_update (incr t)) ?s1"
  let ?cs = "fst (u_choose_people U (length (people s)) (fst (u_pt U 20 (rng s)))
                    (snd (u_pt U 20 (rng s))))"
  let ?g = "snd (u_choose_people U (length (people s)) (fst (u_pt U 20 (rng s)))
                    (snd (u_pt U 20 (rng s))))"
  have e: "step_exposed t i s = Inr ?s1"
    using assms by (simp add: step_exposed_def)
  have i: "step_infectious U t i ?s1 =
      (if ?cs = [] then Inr (?s2\<lparr>rng := ?g\<rparr>) else Inl (KeyError (Plain ''r0'')))"
    using assms
    by (simp add: step_infectious_def date_reached_def getnum_Num make_pars_values
          case_prod_beta contact_loop_default)
  show ?thesis
  proof (cases "?cs = []")
    case True
    with e i assms show ?thesis
      by (simp add: person_step_def make_pars_values)
  next
    case False
    with e i assms show ?thesis
      by (simp add: person_step_def make_pars_values)
  qed
qed

lemma person_step_susceptible:
  "susceptible (people s ! i) \<Longrightarrow>
   person_step U t i (s, tp) = Inr (results_update (n_susceptible_update (incr t)) s, tp)"
  by (simp add: person_step_def)

lemma people_loop_susceptible:
  assumes "\<forall>i \<in> set inds. susceptible (people s ! i)"
  shows "\<exists>s'. people_loop U t inds (s, tp) = Inr (s', tp) \<and> pars s' = pars s \<and>
              people s' = people s"
  using assms
proof (induction inds arbitrary: s)
  case Nil
  then show ?case by (simp add: people_loop_def)
next
  case (Cons i inds)
  let ?s1 = "results_update (n_susceptible_update (incr t)) s"
  from Cons.prems have "\<forall>i \<in> set inds. susceptible (people ?s1 ! i)" by simp
  from Cons.IH [OF this] obtain s' where
    "people_loop U t inds (?s1, tp) = Inr (s', tp)" "pars s' = pars s" "people s' = people s"
    by auto
  with Cons.prems show ?case
    by (simp add: people_loop_def person_step_susceptible)
qed

text \<open>Day 0 of the main loop on the default parameters ends with a key error.\<close>

lemma day_step_default:
  assumes "pars s = make_pars" and "0 < length (people s)"
    and "\<not> susceptible (people s ! 0)" "exposed (people s ! 0)" "infectious (people s ! 0)"
    and "\<not> recovered (people s ! 0)"
    and "date_died (people s ! 0) = None" "date_recovered (people s ! 0) = None"
    and "\<forall>i. 0 < i \<and> i < length (people s) \<longrightarrow> susceptible (people s ! i)"
  shows "day_step U (Num v) [] t s = Inl (KeyError (Plain ''r0'')) \<or>
         day_step U (Num v) [] t s = Inl (KeyError (Plain ''intervene''))"
proof -
  have range: "[0..<length (people s)] = 0 # [Suc 0..<length (people s)]"
    using assms(2) by (simp add: upt_conv_Cons)
  from person_step_seed_default [OF assms(1,3-8), of U t "[]"]
  show ?thesis
  proof
    assume "person_step U t 0 (s, []) = Inl (KeyError (Plain ''r0''))"
    then show ?thesis
      by (simp add: day_step_def num_def people_loop_def range)
  next
    assume "\<exists>s' tp'. person_step U t 0 (s, []) = Inr (s', tp') \<and> pars s' = make_pars \<and>
                    people s' = people s"
    then obtain s1 tp1 where one: "person_step U t 0 (s, []) = Inr (s1, tp1)"
      and p1: "pars s1 = make_pars" and same: "people s1 = people s"
      by blast
    from assms(9) same
    have "\<forall>i \<in> set [Suc 0..<length (people s)]. susceptible (people s1 ! i)"
      by simp
    from people_loop_susceptible [OF this, of U t tp1] obtain s2 where
      rest: "people_loop U t [Suc 0..<length (people s)] (s1, tp1) = Inr (s2, tp1)"
      and p2: "pars s2 = pars s1"
      by blast
    from one rest have "people_loop U t [0..<length (people s)] (s, []) = Inr (s2, tp1)"
      by (simp add: people_loop_def range)
    moreover from p1 p2 have "intervention U t (pars s2) = Inl (KeyError (Plain ''intervene''))"
      by (simp add: intervention_def getitem_absent make_pars_missing)
    ultimately show ?thesis
      by (simp add: day_step_def num_def)
  qed
qed

lemma run_days_Cons:
  "run_days U verbose feed (t # ts) s =
     ebind (day_step U verbose feed t s) (run_days U verbose feed ts)"
  by (cases "day_step U verbose feed t s") (simp_all add: run_days_def)

lemma run_loop_default:
  "run_loop U (Num v) (s\<lparr>pars := make_pars\<rparr>) = Inl (KeyError (Plain ''r0'')) \<or>
   run_loop U (Num v) (s\<lparr>pars := make_pars\<rparr>) = Inl (KeyError (Plain ''intervene''))"
proof -
  let ?s = "s\<lparr>pars := make_pars\<rparr>"
  have n: "npts make_pars = Inr 55"
    by (simp add: npts_def getnum_Num make_pars_values py_int_def)
  then obtain s1 where r: "init_results ?s = Inr s1"
    by (simp add: init_results_def Let_def)
  from init_results_zero [OF r] n have p1: "pars s1 = make_pars"
    and inf: "infections (results s1) \<noteq> []"
    by auto
  from init_people_default [OF p1 inf, of U] obtain s2 where
    p: "init_people U s1 = Inr s2" and s2: "pars s2 = make_pars" "length (people s2) = 10000"
      "\<not> susceptible (people s2 ! 0)" "exposed (people s2 ! 0)" "infectious (people s2 ! 0)"
      "\<not> recovered (people s2 ! 0)"
      "date_died (people s2 ! 0) = None" "date_recovered (people s2 ! 0) = None"
      "\<forall>i. 0 < i \<and> i < 10000 \<longrightarrow> susceptible (people s2 ! i)"
    by blast
  have days: "[0..<55] = 0 # [Suc 0..<55]"
    by (simp add: upt_conv_Cons del: upt_rec_numeral)
  have "run_loop U (Num v) ?s =
          ebind (day_step U (Num v) [] 0 s2) (run_days U (Num v) [] [Suc 0..<55])"
    using r p s2(1) n by (simp add: run_loop_def run_days_Cons days del: upt_rec_numeral)
  moreover from s2 have "0 < length (people s2)"
    and "\<forall>i. 0 < i \<and> i < length (people s2) \<longrightarrow> susceptible (people s2 ! i)"
    by simp_all
  note day_step_default [OF s2(1) this(1) s2(3-8) this(2), of U v 0]
  ultimately show ?thesis
    by auto
qed

lemma Sim_init_default: "\<exists>s0. Sim_init U None g = Inr s0 \<and> pars s0 = make_pars"
proof -
  let ?s = "(blank_sim make_pars g)\<lparr>rng := u_seed U 1\<rparr>"
  have n: "npts make_pars = Inr 55"
    by (simp add: npts_def getnum_Num make_pars_values py_int_def)
  have p: "pars ?s = make_pars" by (simp add: blank_sim_def)
  with n obtain s1 where r: "init_results ?s = Inr s1"
    by (simp add: init_results_def Let_def)
  from init_results_zero [OF r] n p have p1: "pars s1 = make_pars"
    and inf: "infections (results s1) \<noteq> []"
    by auto
  from init_people_default [OF p1 inf, of U] obtain s2 where
    "init_people U s1 = Inr s2" "pars s2 = make_pars"
    by blast
  with r show ?thesis
    by (simp add: Sim_init_def make_pars_values set_seed_def)
qed

lemma single_run_no_r0:
  assumes "pars s = make_pars"
  shows "ebind (getnum (pars s) ''seed'') (\<lambda>sd.
         ebind (setitem (u_suggest U) (pars s) ''seed'' (Num (sd + of_int ind))) (\<lambda>d1.
         ebind (getitem d1 ''seed'') (\<lambda>seed.
         ebind (set_seed U seed (s\<lparr>pars := d1\<rparr>)) (\<lambda>s1.
         ebind (getitem (pars s1) ''r0'') (K s1)))))
         = Inl (KeyError (Plain ''r0''))"
proof -
  have "getitem (dict_set make_pars ''seed'' v) ''r0'' = Inl (KeyError (Plain ''r0''))" for v
    by (simp add: getitem_dict_set getitem_absent make_pars_missing)
  with assms show ?thesis
    by (simp add: getnum_Num make_pars_values setitem_present [OF make_pars_values(1)]
          getitem_dict_set set_seed_def)
qed

text \<open>
  Claim C10. \<^verbatim>\<open>make_pars\<close> defines none of the keys \<^verbatim>\<open>r0\<close>, \<^verbatim>\<open>intervene\<close> and
  \<^verbatim>\<open>unintervene\<close> (it defines \<^verbatim>\<open>r_contact\<close>, \<^verbatim>\<open>quarantine\<close>, \<^verbatim>\<open>unquarantine\<close> and
  \<^verbatim>\<open>quarantine_eff\<close>). On a simulation with the default parameters, whatever the library
  functions draw, \<^verbatim>\<open>Sim.run\<close> (with \<^verbatim>\<open>verbose\<close> left out or a number) ends on day 0 of its
  main loop with a key error: for \<^verbatim>\<open>r0\<close> when the seed person draws a contact, and
  otherwise for \<^verbatim>\<open>intervene\<close> at the end of the day. \<^verbatim>\<open>single_run\<close> ends with the key error
  for \<^verbatim>\<open>r0\<close> where it reads that key, before it calls \<^verbatim>\<open>run\<close>.
\<close>

theorem default_parameters_run_fails:
  "(Sim_run U None (s\<lparr>pars := make_pars\<rparr>) = Inl (KeyError (Plain ''r0'')) \<or>
    Sim_run U None (s\<lparr>pars := make_pars\<rparr>) = Inl (KeyError (Plain ''intervene''))) \<and>
   (Sim_run U (Some (Num v)) (s\<lparr>pars := make_pars\<rparr>) = Inl (KeyError (Plain ''r0'')) \<or>
    Sim_run U (Some (Num v)) (s\<lparr>pars := make_pars\<rparr>) = Inl (KeyError (Plain ''intervene''))) \<and>
   (run_loop U (Num v) (s\<lparr>pars := make_pars\<rparr>) = Inl (KeyError (Plain ''r0'')) \<or>
    run_loop U (Num v) (s\<lparr>pars := make_pars\<rparr>) = Inl (KeyError (Plain ''intervene''))) \<and>
   single_run U None None noise ind verbose g = Inl (KeyError (Plain ''r0'')) \<and>
   single_run U (Some (s\<lparr>pars := make_pars\<rparr>)) pars_arg noise ind verbose g =
     Inl (KeyError (Plain ''r0'')) \<and>
   set [''r0'', ''intervene'', ''unintervene''] \<inter> set (keys make_pars) = {} \<and>
   set [''r_contact'', ''quarantine'', ''unquarantine'', ''quarantine_eff'']
     \<subseteq> set (keys make_pars)"
proof -
  have run1: "Sim_run U None (s\<lparr>pars := make_pars\<rparr>) = Inl (KeyError (Plain ''r0'')) \<or>
    Sim_run U None (s\<lparr>pars := make_pars\<rparr>) = Inl (KeyError (Plain ''intervene''))"
    using run_loop_default [of U 1 s] by (auto simp: Sim_run_def make_pars_values)
  have run2: "Sim_run U (Some (Num v)) (s\<lparr>pars := make_pars\<rparr>) = Inl (KeyError (Plain ''r0'')) \<or>
    Sim_run U (Some (Num v)) (s\<lparr>pars := make_pars\<rparr>) = Inl (KeyError (Plain ''intervene''))"
    using run_loop_default [of U v s] by (auto simp: Sim_run_def)
  from Sim_init_default [of U g] obtain s0 where
    init: "Sim_init U None g = Inr s0" and p0: "pars s0 = make_pars"
    by blast
  have single1: "single_run U None None noise ind verbose g = Inl (KeyError (Plain ''r0''))"
    by (simp only: single_run_def init option.case ebind_Inr)
       (rule single_run_no_r0 [OF p0])
  have p2: "pars (s\<lparr>pars := make_pars\<rparr>\<lparr>rng := g\<rparr>) = make_pars" by simp
  have single2: "single_run U (Some (s\<lparr>pars := make_pars\<rparr>)) pars_arg noise ind verbose g =
     Inl (KeyError (Plain ''r0''))"
    by (simp only: single_run_def option.case ebind_Inr)
       (rule single_run_no_r0 [OF p2])
  have missing: "set [''r0'', ''intervene'', ''unintervene''] \<inter> set (keys make_pars) = {}"
    using make_pars_missing by simp
  have present: "set [''r_contact'', ''quarantine'', ''unquarantine'', ''quarantine_eff'']
     \<subseteq> set (keys make_pars)"
    by (simp add: make_pars_def keys_def)
  from run1 run2 run_loop_default [of U v s] single1 single2 missing present
  show ?thesis by blast
qed

section \<open>Seeding and determinism\<close>





















section \<open>Properties of the people that the day loop keeps\<close>

lemma people_upd_person [simp]:
  "people (upd_person i f s) = (people s)[i := f (people s ! i)]"
  by (simp add: upd_person_def)

lemma pars_upd_person [simp]: "pars (upd_person i f s) = pars s"
  by (simp add: upd_person_def)

lemma results_upd_person [simp]: "results (upd_person i f s) = results s"
  by (simp add: upd_person_def)

lemma rng_upd_person [simp]: "rng (upd_person i f s) = rng s"
  by (simp add: upd_person_def)


















section \<open>The order of the days of a person\<close>











end
